theory Spec2Isabelle
  imports Main "HOL-Library.Sublist"
begin

section \<open>JavaScript primitives used by the bot\<close>

text \<open>
  Strings are lists of \<^typ>\<open>char\<close>; a character stands for one code unit in the
  Latin-1 range (0 to 255), which covers Telegram usernames and Matrix user ids.
  Emoji that the source puts into button and message texts are left out of the texts.
\<close>

subsection \<open>Strings\<close>

definition lower_char :: "char \<Rightarrow> char" where
  \<comment> \<open>\<open>String.prototype.toLowerCase\<close> on one code unit below 256: A-Z and the accented
      capitals 192-214, 216-222 move up by 32, every other code unit is unchanged.\<close>
  "lower_char c =
     (let n = (of_char c :: nat) in
      if (65 \<le> n \<and> n \<le> 90) \<or> (192 \<le> n \<and> n \<le> 214) \<or> (216 \<le> n \<and> n \<le> 222)
      then char_of (n + 32) else c)"

definition toLowerCase :: "string \<Rightarrow> string" where
  "toLowerCase s = map lower_char s"

fun includes_str :: "string \<Rightarrow> string \<Rightarrow> bool" where
  \<comment> \<open>\<open>s.includes(t)\<close>: \<open>t\<close> occurs in \<open>s\<close> at some position.\<close>
  "includes_str [] t = (t = [])"
| "includes_str (c # s) t = (prefix t (c # s) \<or> includes_str s t)"

definition startsWith :: "string \<Rightarrow> string \<Rightarrow> bool" where
  "startsWith s t = prefix t s"

definition substring :: "string \<Rightarrow> nat \<Rightarrow> string" where
  \<comment> \<open>\<open>s.substring(n)\<close> with one argument.\<close>
  "substring s n = drop n s"

fun split_js :: "string \<Rightarrow> char \<Rightarrow> string list" where
  \<comment> \<open>\<open>s.split(sep)\<close> for a one-character separator; the result is never empty.\<close>
  "split_js [] sep = [[]]"
| "split_js (c # cs) sep =
     (if c = sep then [] # split_js cs sep
      else (case split_js cs sep of
              [] \<Rightarrow> [[c]]
            | w # ws \<Rightarrow> (c # w) # ws))"

definition is_space :: "char \<Rightarrow> bool" where
  \<comment> \<open>White space and line terminators below 256: TAB, LF, VT, FF, CR, SP, NBSP.\<close>
  "is_space c = (let n = (of_char c :: nat) in (9 \<le> n \<and> n \<le> 13) \<or> n = 32 \<or> n = 160)"

definition trim :: "string \<Rightarrow> string" where
  "trim s = rev (dropWhile is_space (rev (dropWhile is_space s)))"

definition truthy_str :: "string option \<Rightarrow> bool" where
  \<comment> \<open>Truthiness of a value that is a string, \<open>undefined\<close> or \<open>null\<close>: the empty string is falsy.\<close>
  "truthy_str v = (case v of None \<Rightarrow> False | Some s \<Rightarrow> s \<noteq> [])"

definition or_str :: "string option \<Rightarrow> string \<Rightarrow> string" where
  \<comment> \<open>\<open>v || d\<close> for a string-or-undefined \<open>v\<close> and a string \<open>d\<close>.\<close>
  "or_str v d = (case v of None \<Rightarrow> d | Some s \<Rightarrow> if s \<noteq> [] then s else d)"

subsection \<open>Numbers\<close>

text \<open>
  The numbers the bot computes with are integers or \<open>NaN\<close> (the result of \<open>parseInt\<close>
  on a string without digits). Integers are unbounded here: the model covers the range
  in which JavaScript numbers are exact.
\<close>

datatype number = NaN | Num int

fun num_add :: "number \<Rightarrow> number \<Rightarrow> number" where
  "num_add (Num a) (Num b) = Num (a + b)"
| "num_add _ _ = NaN"

fun num_sub :: "number \<Rightarrow> number \<Rightarrow> number" where
  "num_sub (Num a) (Num b) = Num (a - b)"
| "num_sub _ _ = NaN"

fun num_mul :: "number \<Rightarrow> number \<Rightarrow> number" where
  "num_mul (Num a) (Num b) = Num (a * b)"
| "num_mul _ _ = NaN"

fun num_min :: "number \<Rightarrow> number \<Rightarrow> number" where
  \<comment> \<open>\<open>Math.min\<close>: \<open>NaN\<close> if either argument is.\<close>
  "num_min (Num a) (Num b) = Num (min a b)"
| "num_min _ _ = NaN"

fun num_lt :: "number \<Rightarrow> number \<Rightarrow> bool" where
  \<comment> \<open>\<open>a < b\<close>: false when either side is \<open>NaN\<close>.\<close>
  "num_lt (Num a) (Num b) = (a < b)"
| "num_lt _ _ = False"

definition num_gt :: "number \<Rightarrow> number \<Rightarrow> bool" where
  "num_gt a b = num_lt b a"

definition to_index :: "number \<Rightarrow> int" where
  \<comment> \<open>\<open>ToIntegerOrInfinity\<close>: \<open>NaN\<close> becomes 0.\<close>
  "to_index n = (case n of NaN \<Rightarrow> 0 | Num i \<Rightarrow> i)"

definition slice_js :: "'a list \<Rightarrow> number \<Rightarrow> number \<Rightarrow> 'a list" where
  \<comment> \<open>\<open>Array.prototype.slice(start, end)\<close>: a negative index counts from the end,
      both indices are clamped to the array, an empty range gives the empty array.\<close>
  "slice_js xs start end =
     (let len = int (length xs);
          relStart = to_index start;
          k = (if relStart < 0 then max (len + relStart) 0 else min relStart len);
          relEnd = to_index end;
          final = (if relEnd < 0 then max (len + relEnd) 0 else min relEnd len)
      in take (nat (final - k)) (drop (nat k) xs))"

definition digit_char :: "nat \<Rightarrow> char" where
  "digit_char d = char_of (48 + d)"

fun digits_of :: "nat \<Rightarrow> string" where
  "digits_of n = (if n < 10 then [digit_char n] else digits_of (n div 10) @ [digit_char (n mod 10)])"

declare digits_of.simps [simp del]

definition num_to_string :: "number \<Rightarrow> string" where
  \<comment> \<open>A number inside a template literal.\<close>
  "num_to_string n =
     (case n of
        NaN \<Rightarrow> ''NaN''
      | Num i \<Rightarrow> if i < 0 then CHR ''-'' # digits_of (nat (- i)) else digits_of (nat i))"

definition digit_val :: "nat \<Rightarrow> char \<Rightarrow> nat option" where
  \<comment> \<open>The value of a digit in the given radix (10 or 16), if it is one.\<close>
  "digit_val radix c =
     (let n = (of_char c :: nat);
          v = (if 48 \<le> n \<and> n \<le> 57 then Some (n - 48)
               else if 97 \<le> n \<and> n \<le> 122 then Some (n - 87)
               else if 65 \<le> n \<and> n \<le> 90 then Some (n - 55)
               else None)
      in case v of None \<Rightarrow> None | Some d \<Rightarrow> if d < radix then Some d else None)"

fun parse_digits :: "nat \<Rightarrow> string \<Rightarrow> nat \<Rightarrow> nat" where
  \<comment> \<open>Reads digits as far as they go; what follows is ignored.\<close>
  "parse_digits radix [] acc = acc"
| "parse_digits radix (c # cs) acc =
     (case digit_val radix c of
        None \<Rightarrow> acc
      | Some d \<Rightarrow> parse_digits radix cs (acc * radix + d))"

definition parse_unsigned :: "string \<Rightarrow> nat option" where
  "parse_unsigned s =
     (let hex = (prefix ''0x'' s \<or> prefix ''0X'' s);
          radix = (if hex then 16 else 10);
          body = (if hex then drop 2 s else s)
      in case body of
           [] \<Rightarrow> None
         | c # cs \<Rightarrow> (case digit_val radix c of
                        None \<Rightarrow> None
                      | Some d \<Rightarrow> Some (parse_digits radix body 0)))"

definition parseInt :: "string \<Rightarrow> number" where
  \<comment> \<open>\<open>parseInt(s)\<close> without a radix argument: leading white space, a sign, an optional
      \<open>0x\<close> prefix, then digits; \<open>NaN\<close> when there is no digit.\<close>
  "parseInt s =
     (let t = dropWhile is_space s;
          neg = prefix ''-'' t;
          u = (if prefix ''-'' t \<or> prefix ''+'' t then drop 1 t else t)
      in case parse_unsigned u of
           None \<Rightarrow> NaN
         | Some n \<Rightarrow> Num (if neg then - int n else int n))"

section \<open>Authorization gate\<close>

record tg_user =
  tg_id :: int
  username :: "string option"

text \<open>
  The security configuration read from the environment at start-up. An entry of
  \<open>AUTHORIZED_USERS\<close> is the result of \<open>parseInt\<close>, so it may be \<open>NaN\<close>.
\<close>

record config =
  AUTHORIZED_USERS :: "number list"
  AUTHORIZED_USERNAMES :: "string list"

definition parse_AUTHORIZED_USERS :: "string option \<Rightarrow> number list" where
  \<comment> \<open>\<open>env ? env.split(',').map(id => parseInt(id.trim())) : []\<close>\<close>
  "parse_AUTHORIZED_USERS env =
     (if truthy_str env then map (\<lambda>id. parseInt (trim id)) (split_js (the env) CHR '','') else [])"

definition parse_AUTHORIZED_USERNAMES :: "string option \<Rightarrow> string list" where
  \<comment> \<open>\<open>env ? env.split(',').map(username => username.trim().toLowerCase()) : []\<close>\<close>
  "parse_AUTHORIZED_USERNAMES env =
     (if truthy_str env then map (\<lambda>username. toLowerCase (trim username)) (split_js (the env) CHR '','')
      else [])"

definition load_config :: "string option \<Rightarrow> string option \<Rightarrow> config" where
  "load_config users_env usernames_env =
     \<lparr>AUTHORIZED_USERS = parse_AUTHORIZED_USERS users_env,
      AUTHORIZED_USERNAMES = parse_AUTHORIZED_USERNAMES usernames_env\<rparr>"

definition isAuthorized :: "config \<Rightarrow> tg_user \<Rightarrow> bool" where
  \<comment> \<open>\<open>bot-secure.js\<close> and the complete variants: an empty configuration locks the bot.\<close>
  "isAuthorized cfg user =
     (if length (AUTHORIZED_USERS cfg) = 0 \<and> length (AUTHORIZED_USERNAMES cfg) = 0 then False
      else if Num (tg_id user) \<in> set (AUTHORIZED_USERS cfg) then True
      else if truthy_str (username user)
              \<and> toLowerCase (the (username user)) \<in> set (AUTHORIZED_USERNAMES cfg) then True
      else False)"

definition isAuthorized_legacy :: "config \<Rightarrow> tg_user \<Rightarrow> bool" where
  \<comment> \<open>The variant that follows the README text: an empty configuration allows everyone
      ("backward compatibility").\<close>
  "isAuthorized_legacy cfg user =
     (if length (AUTHORIZED_USERS cfg) = 0 \<and> length (AUTHORIZED_USERNAMES cfg) = 0 then True
      else if Num (tg_id user) \<in> set (AUTHORIZED_USERS cfg) then True
      else if truthy_str (username user)
              \<and> toLowerCase (the (username user)) \<in> set (AUTHORIZED_USERNAMES cfg) then True
      else False)"

section \<open>Data model\<close>

text \<open>An account as the Synapse admin API returns it (the fields the bot reads).\<close>

record matrix_user =
  name :: string
  displayname :: "string option"
  deactivated :: bool
  admin :: bool
  user_type :: "string option"

text \<open>
  The remote directory, one function per endpoint. \<open>Inl m\<close> is a failed request with the
  message \<open>error.response?.data?.error || error.message\<close>; the \<open>users\<close> field of a
  listing may be missing (\<open>None\<close>).
\<close>

record server =
  list_users :: "int \<Rightarrow> int \<Rightarrow> string + matrix_user list option"
  deactivate :: "string \<Rightarrow> bool \<Rightarrow> string + unit"
  user_info :: "string \<Rightarrow> string + matrix_user"

datatype request =
    GetUsersReq int int     \<comment> \<open>\<open>GET /_synapse/admin/v2/users\<close>, params \<open>from\<close>, \<open>limit\<close>\<close>
  | DeactivateReq string bool  \<comment> \<open>\<open>POST /_synapse/admin/v1/deactivate/<userId>\<close>, body \<open>{ erase }\<close>\<close>
  | GetUserInfoReq string   \<comment> \<open>\<open>GET /_synapse/admin/v2/users/<userId>\<close>\<close>

record button =
  btn_text :: string
  callback_data :: string

type_synonym keyboard = "button list list"

text \<open>The texts the bot sends, one constructor per template, with the interpolated values.\<close>

datatype msg =
    Msg_access_denied
  | Msg_welcome tg_user
  | Msg_help
  | Msg_choose_action
  | Msg_whoami tg_user
  | Msg_my_info tg_user
  | Msg_search_prompt
  | Msg_fetching_users
  | Msg_no_users
  | Msg_users_list "matrix_user list"
  | Msg_loading_for_deactivation
  | Msg_no_active_users
  | Msg_no_deactivatable_users nat
  | Msg_select_user
  | Msg_select_user_admins_hidden
  | Msg_confirm_deactivation string
  | Msg_deactivating string
  | Msg_deactivated string
  | Msg_deactivation_failed string
  | Msg_error string
  | Msg_searching string
  | Msg_no_search_results string
  | Msg_search_results nat string
  | Msg_search_failed string
  | Msg_invalid_search_term
  | Msg_user_info matrix_user
  | Msg_user_info_failed string

datatype log_entry =
    Log_unauthorized tg_user string
  | Log_authorized tg_user string
  | Log_deactivated tg_user string
  | Log_error string

text \<open>
  Everything the bot does to the outside, in the order it does it. Calls to the Telegram
  API are taken to succeed; a call to the remote directory succeeds or fails as the
  \<open>server\<close> says.
\<close>

datatype effect =
    Http request
  | AnswerCallbackQuery "string option"
  | SendMessage int msg "keyboard option"
  | EditMessageText int int msg "keyboard option"
  | EditMessageReplyMarkup int int keyboard
  | Console log_entry
  | UnhandledRejection string  \<comment> \<open>an error thrown in an async handler outside any \<open>try\<close>\<close>

text \<open>
  The object stored per chat in \<open>userStates\<close>. A field that the object does not have
  is \<open>None\<close> (\<open>False\<close> for the flag, which is only ever tested for truthiness);
  the field \<open>st_users\<close> is \<open>state.users\<close>, and so on.
\<close>

record session =
  st_waiting_for_search :: bool
  st_users :: "matrix_user list option"
  st_page :: "number option"
  st_search_results :: "matrix_user list option"
  st_search_term :: "string option"
  st_search_page :: "number option"

type_synonym userStates = "int \<rightharpoonup> session"

definition empty_session :: session where
  "empty_session =
     \<lparr>st_waiting_for_search = False, st_users = None, st_page = None,
      st_search_results = None, st_search_term = None, st_search_page = None\<rparr>"

section \<open>Matrix API client\<close>

definition default_arg :: "'a option \<Rightarrow> 'a \<Rightarrow> 'a" where
  \<comment> \<open>A parameter with a default value: \<open>None\<close> is an omitted argument.\<close>
  "default_arg a d = (case a of None \<Rightarrow> d | Some v \<Rightarrow> v)"

definition getUsers ::
  "server \<Rightarrow> int option \<Rightarrow> int option \<Rightarrow> effect list \<times> (string + matrix_user list option)" where
  "getUsers srv from_arg limit_arg =
     (let from = default_arg from_arg 0;
          limit = default_arg limit_arg 100
      in case list_users srv from limit of
           Inr data \<Rightarrow> ([Http (GetUsersReq from limit)], Inr data)
         | Inl m \<Rightarrow> ([Http (GetUsersReq from limit), Console (Log_error m)],
                     Inl (''Failed to fetch users: '' @ m)))"

definition deactivateUser :: "server \<Rightarrow> string \<Rightarrow> effect list \<times> (string + unit)" where
  "deactivateUser srv userId =
     (case deactivate srv userId False of
        Inr ack \<Rightarrow> ([Http (DeactivateReq userId False)], Inr ack)
      | Inl m \<Rightarrow> ([Http (DeactivateReq userId False), Console (Log_error m)],
                  Inl (''Failed to deactivate user: '' @ m)))"

definition getUserInfo :: "server \<Rightarrow> string \<Rightarrow> effect list \<times> (string + matrix_user)" where
  "getUserInfo srv userId =
     (case user_info srv userId of
        Inr data \<Rightarrow> ([Http (GetUserInfoReq userId)], Inr data)
      | Inl m \<Rightarrow> ([Http (GetUserInfoReq userId), Console (Log_error m)],
                  Inl (''Failed to get user info: '' @ m)))"

definition or_list :: "'a list option \<Rightarrow> 'a list" where
  \<comment> \<open>\<open>v || []\<close> for an array-or-undefined \<open>v\<close>.\<close>
  "or_list v = (case v of None \<Rightarrow> [] | Some xs \<Rightarrow> xs)"

definition search_match :: "string \<Rightarrow> matrix_user \<Rightarrow> bool" where
  \<comment> \<open>The predicate passed to \<open>allUsers.filter\<close> in \<open>searchUsers\<close>.\<close>
  "search_match searchTerm user =
     (let searchLower = toLowerCase searchTerm in
        includes_str (toLowerCase (name user)) searchLower
      \<or> (truthy_str (displayname user)
           \<and> includes_str (toLowerCase (the (displayname user))) searchLower)
      \<or> name user = searchTerm)"

definition filteredUsers :: "string \<Rightarrow> matrix_user list \<Rightarrow> matrix_user list" where
  "filteredUsers searchTerm allUsers = filter (search_match searchTerm) allUsers"

record search_result =
  sr_users :: "matrix_user list"
  sr_total :: nat
  sr_from :: int
  sr_limit :: int

definition searchUsers ::
  "server \<Rightarrow> string \<Rightarrow> int option \<Rightarrow> int option \<Rightarrow> effect list \<times> (string + search_result)" where
  "searchUsers srv searchTerm from_arg limit_arg =
     (let from = default_arg from_arg 0;
          limit = default_arg limit_arg 100
      in case list_users srv 0 1000 of
           Inl m \<Rightarrow> ([Http (GetUsersReq 0 1000), Console (Log_error m)],
                     Inl (''Failed to search users: '' @ m))
         | Inr data \<Rightarrow>
             (let allUsers = or_list data;
                  filtered = filteredUsers searchTerm allUsers;
                  startIndex = Num from;
                  endIndex = num_min (num_add startIndex (Num limit)) (Num (int (length filtered)));
                  paginatedUsers = slice_js filtered startIndex endIndex
              in ([Http (GetUsersReq 0 1000)],
                  Inr \<lparr>sr_users = paginatedUsers, sr_total = length filtered,
                       sr_from = from, sr_limit = limit\<rparr>)))"

section \<open>Keyboards\<close>

definition back_button :: button where
  "back_button = \<lparr>btn_text = ''Back to Menu'', callback_data = ''back_to_menu''\<rparr>"

definition back_keyboard :: keyboard where
  "back_keyboard = [[back_button]]"

definition createMainKeyboard :: keyboard where
  "createMainKeyboard =
     [[\<lparr>btn_text = ''Get All Users'', callback_data = ''get_users''\<rparr>],
      [\<lparr>btn_text = ''Search Users'', callback_data = ''search_users''\<rparr>],
      [\<lparr>btn_text = ''Deactivate User'', callback_data = ''deactivate_menu''\<rparr>],
      [\<lparr>btn_text = ''Show My Info'', callback_data = ''show_my_info''\<rparr>]]"

definition nav_row :: "string \<Rightarrow> number \<Rightarrow> number \<Rightarrow> nat \<Rightarrow> button list" where
  \<comment> \<open>The navigation buttons: "Previous" when \<open>page > 0\<close>, "Next" when
      \<open>endIndex < users.length\<close>; \<open>pfx\<close> is the prefix of their callback data.\<close>
  "nav_row pfx page endIndex len =
     (if num_gt page (Num 0)
      then [\<lparr>btn_text = ''Previous'', callback_data = pfx @ num_to_string (num_sub page (Num 1))\<rparr>]
      else [])
     @ (if num_lt endIndex (Num (int len))
        then [\<lparr>btn_text = ''Next'', callback_data = pfx @ num_to_string (num_add page (Num 1))\<rparr>]
        else [])"

definition secure_user_button :: "matrix_user \<Rightarrow> button" where
  "secure_user_button user =
     \<lparr>btn_text = or_str (displayname user) (name user) @ '' ('' @ or_str (user_type user) ''regular'' @ '')'',
      callback_data = ''deactivate_'' @ name user\<rparr>"

definition secure_createUserSelectionKeyboard ::
  "matrix_user list \<Rightarrow> number option \<Rightarrow> number option \<Rightarrow> keyboard" where
  \<comment> \<open>\<open>createUserSelectionKeyboard(users, page = 0, usersPerPage = 10)\<close> of \<open>bot-secure.js\<close>.\<close>
  "secure_createUserSelectionKeyboard us page_arg usersPerPage_arg =
     (let page = default_arg page_arg (Num 0);
          usersPerPage = default_arg usersPerPage_arg (Num 10);
          startIndex = num_mul page usersPerPage;
          endIndex = num_min (num_add startIndex usersPerPage) (Num (int (length us)));
          pageUsers = slice_js us startIndex endIndex;
          keyboard = map (\<lambda>user. [secure_user_button user]) pageUsers;
          navRow = nav_row ''users_page_'' page endIndex (length us)
      in keyboard @ (if length navRow > 0 then [navRow] else []) @ [[back_button]])"

section \<open>Interaction controller of \<open>bot-secure.js\<close>\<close>

record callback_query =
  cq_from :: tg_user
  cq_chat_id :: int
  cq_message_id :: int
  cq_data :: string

text \<open>
  An incoming message; \<open>msg_reply_id\<close> is the id that Telegram gives to the message the
  bot sends first in reply (the complete variant edits that message afterwards).
\<close>

record message =
  msg_from :: tg_user
  msg_chat_id :: int
  msg_text :: "string option"
  msg_reply_id :: int

datatype event = Message message | CallbackQuery callback_query

text \<open>
  How a branch of the handler ends: it runs to its end, it leaves the handler with
  \<open>return\<close>, or it throws an error with the given message.
\<close>

datatype outcome = Completed | Returned | Threw string

definition index_js :: "'a list \<Rightarrow> nat \<Rightarrow> 'a option" where
  \<comment> \<open>\<open>xs[i]\<close>: \<open>undefined\<close> out of range.\<close>
  "index_js xs i = (if i < length xs then Some (xs ! i) else None)"

definition page_of_data :: "string \<Rightarrow> number" where
  \<comment> \<open>\<open>parseInt(data.split('_')[2])\<close>; \<open>parseInt(undefined)\<close> is \<open>NaN\<close>.\<close>
  "page_of_data data =
     (case index_js (split_js data CHR ''_'') 2 of None \<Rightarrow> NaN | Some s \<Rightarrow> parseInt s)"

definition confirm_keyboard :: "string \<Rightarrow> keyboard" where
  "confirm_keyboard userId =
     [[\<lparr>btn_text = ''Yes, Deactivate'', callback_data = ''confirm_deactivate_'' @ userId\<rparr>,
       \<lparr>btn_text = ''Cancel'', callback_data = ''deactivate_menu''\<rparr>]]"

definition after_deactivation_keyboard :: "string \<Rightarrow> keyboard" where
  \<comment> \<open>"Deactivate Another" after a success, "Try Again" after a failure.\<close>
  "after_deactivation_keyboard label =
     [[\<lparr>btn_text = label, callback_data = ''deactivate_menu''\<rparr>], [back_button]]"

definition confirm_deactivate_branch ::
  "server \<Rightarrow> userStates \<Rightarrow> callback_query \<Rightarrow> userStates \<times> effect list \<times> outcome" where
  \<comment> \<open>The branch \<open>data.startsWith('confirm_deactivate_')\<close>, the same in every variant.\<close>
  "confirm_deactivate_branch srv states q =
     (let chatId = cq_chat_id q; messageId = cq_message_id q;
          userId = substring (cq_data q) (length ''confirm_deactivate_'')
      in case deactivateUser srv userId of
           (http, Inr ack) \<Rightarrow>
             (states,
              EditMessageText chatId messageId (Msg_deactivating userId) None # http
              @ [Console (Log_deactivated (cq_from q) userId),
                 EditMessageText chatId messageId (Msg_deactivated userId)
                   (Some (after_deactivation_keyboard ''Deactivate Another''))],
              Completed)
         | (http, Inl m) \<Rightarrow>
             (states,
              EditMessageText chatId messageId (Msg_deactivating userId) None # http
              @ [EditMessageText chatId messageId (Msg_deactivation_failed m)
                   (Some (after_deactivation_keyboard ''Try Again''))],
              Completed))"

definition deactivate_branch ::
  "userStates \<Rightarrow> callback_query \<Rightarrow> userStates \<times> effect list \<times> outcome" where
  \<comment> \<open>The branch \<open>data.startsWith('deactivate_')\<close>, the same in every variant.\<close>
  "deactivate_branch states q =
     (let userId = substring (cq_data q) (length ''deactivate_'')
      in (states,
          [EditMessageText (cq_chat_id q) (cq_message_id q) (Msg_confirm_deactivation userId)
             (Some (confirm_keyboard userId))],
          Completed))"

definition get_users_branch ::
  "server \<Rightarrow> userStates \<Rightarrow> callback_query \<Rightarrow> userStates \<times> effect list \<times> outcome" where
  \<comment> \<open>The branch \<open>data === 'get_users'\<close>, the same in every variant.\<close>
  "get_users_branch srv states q =
     (let chatId = cq_chat_id q; messageId = cq_message_id q
      in case getUsers srv None None of
           (http, Inl m) \<Rightarrow>
             (states, EditMessageText chatId messageId Msg_fetching_users None # http, Threw m)
         | (http, Inr usersData) \<Rightarrow>
             (let us = or_list usersData in
              if length us = 0
              then (states,
                    EditMessageText chatId messageId Msg_fetching_users None # http
                    @ [EditMessageText chatId messageId Msg_no_users (Some back_keyboard)],
                    Returned)
              else (states,
                    EditMessageText chatId messageId Msg_fetching_users None # http
                    @ [EditMessageText chatId messageId (Msg_users_list us) (Some back_keyboard)],
                    Completed)))"

definition search_users_branch ::
  "userStates \<Rightarrow> callback_query \<Rightarrow> userStates \<times> effect list \<times> outcome" where
  \<comment> \<open>The branch \<open>data === 'search_users'\<close>: the stored object becomes
      \<open>{ waiting_for_search: true }\<close>.\<close>
  "search_users_branch states q =
     (states(cq_chat_id q \<mapsto> empty_session\<lparr>st_waiting_for_search := True\<rparr>),
      [EditMessageText (cq_chat_id q) (cq_message_id q) Msg_search_prompt (Some back_keyboard)],
      Completed)"

definition activeUsers :: "matrix_user list option \<Rightarrow> matrix_user list" where
  \<comment> \<open>\<open>(usersData.users || []).filter(user => !user.deactivated)\<close> of \<open>bot-secure.js\<close>.\<close>
  "activeUsers usersData = filter (\<lambda>user. \<not> deactivated user) (or_list usersData)"

definition secure_deactivate_menu_branch ::
  "server \<Rightarrow> userStates \<Rightarrow> callback_query \<Rightarrow> userStates \<times> effect list \<times> outcome" where
  "secure_deactivate_menu_branch srv states q =
     (let chatId = cq_chat_id q; messageId = cq_message_id q
      in case getUsers srv None None of
           (http, Inl m) \<Rightarrow>
             (states, EditMessageText chatId messageId Msg_loading_for_deactivation None # http,
              Threw m)
         | (http, Inr usersData) \<Rightarrow>
             (let active = activeUsers usersData in
              if length active = 0
              then (states,
                    EditMessageText chatId messageId Msg_loading_for_deactivation None # http
                    @ [EditMessageText chatId messageId Msg_no_active_users (Some back_keyboard)],
                    Returned)
              else (states(chatId \<mapsto>
                      empty_session\<lparr>st_users := Some active, st_page := Some (Num 0)\<rparr>),
                    EditMessageText chatId messageId Msg_loading_for_deactivation None # http
                    @ [EditMessageText chatId messageId Msg_select_user
                         (Some (secure_createUserSelectionKeyboard active (Some (Num 0)) None))],
                    Completed)))"

definition secure_users_page_branch ::
  "userStates \<Rightarrow> callback_query \<Rightarrow> userStates \<times> effect list \<times> outcome" where
  \<comment> \<open>The branch \<open>data.startsWith('users_page_')\<close>; without a stored object that has
      \<open>users\<close>, the \<open>if\<close> has no \<open>else\<close> and nothing is done.\<close>
  "secure_users_page_branch states q =
     (let page = page_of_data (cq_data q) in
      case states (cq_chat_id q) of
        None \<Rightarrow> (states, [], Completed)
      | Some state \<Rightarrow>
          (case st_users state of
             None \<Rightarrow> (states, [], Completed)
           | Some us \<Rightarrow>
               (states(cq_chat_id q \<mapsto> state\<lparr>st_page := Some page\<rparr>),
                [EditMessageReplyMarkup (cq_chat_id q) (cq_message_id q)
                   (secure_createUserSelectionKeyboard us (Some page) None)],
                Completed)))"

definition back_to_menu_branch ::
  "userStates \<Rightarrow> callback_query \<Rightarrow> userStates \<times> effect list \<times> outcome" where
  "back_to_menu_branch states q =
     (states(cq_chat_id q := None),
      [EditMessageText (cq_chat_id q) (cq_message_id q) Msg_choose_action (Some createMainKeyboard)],
      Completed)"

definition secure_branches ::
  "server \<Rightarrow> userStates \<Rightarrow> callback_query \<Rightarrow> userStates \<times> effect list \<times> outcome" where
  \<comment> \<open>The \<open>if\<close>/\<open>else if\<close> chain inside the \<open>try\<close> block, in the source's order (the
      second \<open>search_users\<close> test of the source can never be reached).\<close>
  "secure_branches srv states q =
     (let data = cq_data q in
      if data = ''show_my_info'' then
        (states,
         [EditMessageText (cq_chat_id q) (cq_message_id q) (Msg_my_info (cq_from q))
            (Some back_keyboard)],
         Completed)
      else if data = ''search_users'' then search_users_branch states q
      else if data = ''get_users'' then get_users_branch srv states q
      else if data = ''deactivate_menu'' then secure_deactivate_menu_branch srv states q
      else if startsWith data ''users_page_'' then secure_users_page_branch states q
      else if startsWith data ''deactivate_'' then deactivate_branch states q
      else if startsWith data ''confirm_deactivate_'' then confirm_deactivate_branch srv states q
      else if data = ''back_to_menu'' then back_to_menu_branch states q
      else (states, [], Completed))"

definition catch_all :: "callback_query \<Rightarrow> outcome \<Rightarrow> effect list" where
  \<comment> \<open>The outer \<open>catch\<close> of the callback handler.\<close>
  "catch_all q out =
     (case out of
        Threw m \<Rightarrow> [Console (Log_error m),
                    EditMessageText (cq_chat_id q) (cq_message_id q) (Msg_error m) (Some back_keyboard)]
      | _ \<Rightarrow> [])"

definition secure_callback_handler ::
  "server \<Rightarrow> userStates \<Rightarrow> callback_query \<Rightarrow> userStates \<times> effect list" where
  \<comment> \<open>The query is answered first; the closing \<open>answerCallbackQuery\<close> after the \<open>try\<close>
      statement is skipped when a branch returned.\<close>
  "secure_callback_handler srv states q =
     (case secure_branches srv states q of
        (states', effs, out) \<Rightarrow>
          (states',
           AnswerCallbackQuery None # effs @ catch_all q out
           @ (if out = Returned then [] else [AnswerCallbackQuery None])))"

definition requireAuthCallback ::
  "config
     \<Rightarrow> (userStates \<Rightarrow> callback_query \<Rightarrow> userStates \<times> effect list)
     \<Rightarrow> userStates \<Rightarrow> callback_query \<Rightarrow> userStates \<times> effect list" where
  "requireAuthCallback cfg handler states q =
     (let user = cq_from q; command = ''callback: '' @ cq_data q in
      if \<not> isAuthorized cfg user
      then (states,
            [Console (Log_unauthorized user command),
             SendMessage (cq_chat_id q) Msg_access_denied None,
             AnswerCallbackQuery (Some ''Access denied'')])
      else (case handler states q of
              (states', effs) \<Rightarrow> (states', Console (Log_authorized user command) # effs)))"

definition requireAuth ::
  "config
     \<Rightarrow> (userStates \<Rightarrow> message \<Rightarrow> userStates \<times> effect list)
     \<Rightarrow> userStates \<Rightarrow> message \<Rightarrow> userStates \<times> effect list" where
  "requireAuth cfg handler states m =
     (let user = msg_from m; command = or_str (msg_text m) ''callback'' in
      if \<not> isAuthorized cfg user
      then (states,
            [Console (Log_unauthorized user command),
             SendMessage (msg_chat_id m) Msg_access_denied None])
      else (case handler states m of
              (states', effs) \<Rightarrow> (states', Console (Log_authorized user command) # effs)))"

definition reply :: "msg \<Rightarrow> keyboard option \<Rightarrow> userStates \<Rightarrow> message \<Rightarrow> userStates \<times> effect list" where
  \<comment> \<open>A command handler that only sends one message.\<close>
  "reply text_of kb states m = (states, [SendMessage (msg_chat_id m) text_of kb])"

fun run_handlers ::
  "(userStates \<Rightarrow> message \<Rightarrow> userStates \<times> effect list) list
     \<Rightarrow> userStates \<Rightarrow> message \<Rightarrow> userStates \<times> effect list" where
  \<comment> \<open>The handlers that a message triggers run one after the other.\<close>
  "run_handlers [] states m = (states, [])"
| "run_handlers (h # hs) states m =
     (case h states m of
        (states', effs) \<Rightarrow>
          (case run_handlers hs states' m of
             (states'', effs') \<Rightarrow> (states'', effs @ effs')))"

definition on_text ::
  "string \<Rightarrow> (userStates \<Rightarrow> message \<Rightarrow> userStates \<times> effect list)
     \<Rightarrow> userStates \<Rightarrow> message \<Rightarrow> userStates \<times> effect list" where
  \<comment> \<open>\<open>bot.onText(/\/cmd/, handler)\<close>: the handler runs when the text contains the command.\<close>
  "on_text cmd handler states m =
     (case msg_text m of
        None \<Rightarrow> (states, [])
      | Some t \<Rightarrow> if includes_str t cmd then handler states m else (states, []))"

definition secure_on_message :: "config \<Rightarrow> userStates \<Rightarrow> message \<Rightarrow> userStates \<times> effect list" where
  "secure_on_message cfg states m =
     run_handlers
       [on_text ''/start''
          (requireAuth cfg (reply (Msg_welcome (msg_from m)) (Some createMainKeyboard))),
        on_text ''/help'' (requireAuth cfg (reply Msg_help None)),
        on_text ''/menu''
          (requireAuth cfg (reply Msg_choose_action (Some createMainKeyboard))),
        on_text ''/whoami'' (requireAuth cfg (reply (Msg_whoami (msg_from m)) None))]
       states m"

definition secure_step :: "config \<Rightarrow> server \<Rightarrow> userStates \<Rightarrow> event \<Rightarrow> userStates \<times> effect list" where
  "secure_step cfg srv states ev =
     (case ev of
        Message m \<Rightarrow> secure_on_message cfg states m
      | CallbackQuery q \<Rightarrow>
          requireAuthCallback cfg (secure_callback_handler srv) states q)"

section \<open>Interaction controller of the complete variant\<close>

text \<open>
  The variant with search (its start-up line calls it the complete version). Where the
  source picks an emoji from the data, the text holds the emoji's short name in colons.
\<close>

definition status_mark :: "matrix_user \<Rightarrow> string" where
  "status_mark user = (if deactivated user then '':x:'' else '':white_check_mark:'')"

definition type_mark :: "matrix_user \<Rightarrow> string" where
  "type_mark user =
     (if admin user then '' :crown:''
      else if truthy_str (user_type user) then '' ('' @ the (user_type user) @ '')'' else [])"

definition complete_user_button :: "string \<Rightarrow> matrix_user \<Rightarrow> button" where
  "complete_user_button actionPrefix user =
     \<lparr>btn_text = status_mark user @ '' '' @ or_str (displayname user) (name user) @ type_mark user,
      callback_data = actionPrefix @ ''_'' @ name user\<rparr>"

definition complete_createUserSelectionKeyboard ::
  "matrix_user list \<Rightarrow> number option \<Rightarrow> number option \<Rightarrow> string option \<Rightarrow> keyboard" where
  \<comment> \<open>\<open>createUserSelectionKeyboard(users, page = 0, usersPerPage = 10, actionPrefix = 'deactivate')\<close>\<close>
  "complete_createUserSelectionKeyboard us page_arg usersPerPage_arg actionPrefix_arg =
     (let page = default_arg page_arg (Num 0);
          usersPerPage = default_arg usersPerPage_arg (Num 10);
          actionPrefix = default_arg actionPrefix_arg ''deactivate'';
          startIndex = num_mul page usersPerPage;
          endIndex = num_min (num_add startIndex usersPerPage) (Num (int (length us)));
          pageUsers = slice_js us startIndex endIndex;
          keyboard = map (\<lambda>user. [complete_user_button actionPrefix user]) pageUsers;
          navRow = nav_row (actionPrefix @ ''_page_'') page endIndex (length us)
      in keyboard @ (if length navRow > 0 then [navRow] else []) @ [[back_button]])"

definition search_result_row :: "matrix_user \<Rightarrow> button list" where
  "search_result_row user =
     (let actionButton =
            (if deactivated user then \<lparr>btn_text = ''Deactivated'', callback_data = ''noop''\<rparr>
             else if admin user then \<lparr>btn_text = ''Admin Protected'', callback_data = ''noop''\<rparr>
             else \<lparr>btn_text = ''Deactivate'', callback_data = ''deactivate_'' @ name user\<rparr>)
      in [\<lparr>btn_text = status_mark user @ '' '' @ or_str (displayname user) (name user) @ type_mark user,
           callback_data = ''userinfo_'' @ name user\<rparr>,
          actionButton])"

definition createSearchResultKeyboard ::
  "matrix_user list \<Rightarrow> string option \<Rightarrow> number option \<Rightarrow> number option \<Rightarrow> keyboard" where
  \<comment> \<open>\<open>createSearchResultKeyboard(users, searchTerm, page = 0, usersPerPage = 10)\<close>; the
      search term is not used in the body.\<close>
  "createSearchResultKeyboard us searchTerm page_arg usersPerPage_arg =
     (let page = default_arg page_arg (Num 0);
          usersPerPage = default_arg usersPerPage_arg (Num 10);
          startIndex = num_mul page usersPerPage;
          endIndex = num_min (num_add startIndex usersPerPage) (Num (int (length us)));
          pageUsers = slice_js us startIndex endIndex;
          keyboard = map search_result_row pageUsers;
          navRow = nav_row ''search_page_'' page endIndex (length us)
      in keyboard @ (if length navRow > 0 then [navRow] else [])
         @ [[\<lparr>btn_text = ''New Search'', callback_data = ''search_users''\<rparr>, back_button]])"

definition new_search_keyboard :: keyboard where
  "new_search_keyboard =
     [[\<lparr>btn_text = ''New Search'', callback_data = ''search_users''\<rparr>], [back_button]]"

definition search_page_branch ::
  "userStates \<Rightarrow> callback_query \<Rightarrow> userStates \<times> effect list \<times> outcome" where
  \<comment> \<open>The branch \<open>data.startsWith('search_page_')\<close>; the \<open>if\<close> has no \<open>else\<close>.\<close>
  "search_page_branch states q =
     (let page = page_of_data (cq_data q) in
      case states (cq_chat_id q) of
        None \<Rightarrow> (states, [], Completed)
      | Some state \<Rightarrow>
          (case st_search_results state of
             None \<Rightarrow> (states, [], Completed)
           | Some results \<Rightarrow>
               (states(cq_chat_id q \<mapsto> state\<lparr>st_search_page := Some page\<rparr>),
                [EditMessageReplyMarkup (cq_chat_id q) (cq_message_id q)
                   (createSearchResultKeyboard results (st_search_term state) (Some page) None)],
                Completed)))"

definition userinfo_keyboard :: "matrix_user \<Rightarrow> string \<Rightarrow> keyboard" where
  "userinfo_keyboard userInfo userId =
     [if deactivated userInfo
      then [\<lparr>btn_text = ''User Already Deactivated'', callback_data = ''noop''\<rparr>]
      else [\<lparr>btn_text = ''Deactivate User'', callback_data = ''deactivate_'' @ userId\<rparr>],
      [\<lparr>btn_text = ''Back to Search'', callback_data = ''back_to_search''\<rparr>],
      [\<lparr>btn_text = ''Main Menu'', callback_data = ''back_to_menu''\<rparr>]]"

definition userinfo_branch ::
  "server \<Rightarrow> userStates \<Rightarrow> callback_query \<Rightarrow> userStates \<times> effect list \<times> outcome" where
  "userinfo_branch srv states q =
     (let userId = substring (cq_data q) (length ''userinfo_'')
      in case getUserInfo srv userId of
           (http, Inr userInfo) \<Rightarrow>
             (states,
              http @ [EditMessageText (cq_chat_id q) (cq_message_id q) (Msg_user_info userInfo)
                        (Some (userinfo_keyboard userInfo userId))],
              Completed)
         | (http, Inl m) \<Rightarrow>
             (states,
              http @ [EditMessageText (cq_chat_id q) (cq_message_id q) (Msg_user_info_failed m)
                        (Some back_keyboard)],
              Completed))"

definition or_num :: "number option \<Rightarrow> number \<Rightarrow> number" where
  \<comment> \<open>\<open>v || d\<close> for a number-or-undefined \<open>v\<close>: 0 and \<open>NaN\<close> are falsy.\<close>
  "or_num v d = (case v of None \<Rightarrow> d | Some NaN \<Rightarrow> d | Some (Num i) \<Rightarrow> if i = 0 then d else Num i)"

definition back_to_search_branch ::
  "userStates \<Rightarrow> callback_query \<Rightarrow> userStates \<times> effect list \<times> outcome" where
  "back_to_search_branch states q =
     (let menu = (states,
                  [EditMessageText (cq_chat_id q) (cq_message_id q) Msg_choose_action
                     (Some createMainKeyboard)],
                  Completed)
      in case states (cq_chat_id q) of
           None \<Rightarrow> menu
         | Some state \<Rightarrow>
             (case st_search_results state of
                None \<Rightarrow> menu
              | Some results \<Rightarrow>
                  (states,
                   [EditMessageText (cq_chat_id q) (cq_message_id q)
                      (Msg_search_results (length results) (default_arg (st_search_term state) ''undefined''))
                      (Some (createSearchResultKeyboard results (st_search_term state)
                               (Some (or_num (st_search_page state) (Num 0))) None))],
                   Completed)))"

definition deactivatableUsers :: "matrix_user list option \<Rightarrow> matrix_user list" where
  \<comment> \<open>\<open>(usersData.users || []).filter(user => !user.deactivated && !user.admin)\<close> of the
      complete variant: "Filter out deactivated users AND admin users for safety".\<close>
  "deactivatableUsers usersData =
     filter (\<lambda>user. \<not> deactivated user \<and> \<not> admin user) (or_list usersData)"

definition complete_deactivate_menu_branch ::
  "server \<Rightarrow> userStates \<Rightarrow> callback_query \<Rightarrow> userStates \<times> effect list \<times> outcome" where
  "complete_deactivate_menu_branch srv states q =
     (let chatId = cq_chat_id q; messageId = cq_message_id q
      in case getUsers srv None None of
           (http, Inl m) \<Rightarrow>
             (states, EditMessageText chatId messageId Msg_loading_for_deactivation None # http,
              Threw m)
         | (http, Inr usersData) \<Rightarrow>
             (let candidates = deactivatableUsers usersData in
              if length candidates = 0
              then (let adminCount =
                          length (filter (\<lambda>user. \<not> deactivated user \<and> admin user) (or_list usersData))
                    in (states,
                        EditMessageText chatId messageId Msg_loading_for_deactivation None # http
                        @ [EditMessageText chatId messageId (Msg_no_deactivatable_users adminCount)
                             (Some back_keyboard)],
                        Returned))
              else (states(chatId \<mapsto>
                      empty_session\<lparr>st_users := Some candidates, st_page := Some (Num 0)\<rparr>),
                    EditMessageText chatId messageId Msg_loading_for_deactivation None # http
                    @ [EditMessageText chatId messageId Msg_select_user_admins_hidden
                         (Some (complete_createUserSelectionKeyboard candidates
                                  (Some (Num 0)) None None))],
                    Completed)))"

definition deactivate_page_branch ::
  "userStates \<Rightarrow> callback_query \<Rightarrow> userStates \<times> effect list \<times> outcome" where
  \<comment> \<open>The branch \<open>data.startsWith('deactivate_page_')\<close>; the \<open>if\<close> has no \<open>else\<close>.\<close>
  "deactivate_page_branch states q =
     (let page = page_of_data (cq_data q) in
      case states (cq_chat_id q) of
        None \<Rightarrow> (states, [], Completed)
      | Some state \<Rightarrow>
          (case st_users state of
             None \<Rightarrow> (states, [], Completed)
           | Some us \<Rightarrow>
               (states(cq_chat_id q \<mapsto> state\<lparr>st_page := Some page\<rparr>),
                [EditMessageReplyMarkup (cq_chat_id q) (cq_message_id q)
                   (complete_createUserSelectionKeyboard us (Some page) None None)],
                Completed)))"

definition complete_branches ::
  "server \<Rightarrow> userStates \<Rightarrow> callback_query \<Rightarrow> userStates \<times> effect list \<times> outcome" where
  "complete_branches srv states q =
     (let data = cq_data q in
      if data = ''show_my_info'' then
        (states,
         [EditMessageText (cq_chat_id q) (cq_message_id q) (Msg_my_info (cq_from q))
            (Some back_keyboard)],
         Completed)
      else if data = ''search_users'' then search_users_branch states q
      else if startsWith data ''search_page_'' then search_page_branch states q
      else if startsWith data ''userinfo_'' then userinfo_branch srv states q
      else if data = ''back_to_search'' then back_to_search_branch states q
      else if data = ''get_users'' then get_users_branch srv states q
      else if data = ''deactivate_menu'' then complete_deactivate_menu_branch srv states q
      else if startsWith data ''deactivate_page_'' then deactivate_page_branch states q
      else if startsWith data ''deactivate_'' then deactivate_branch states q
      else if startsWith data ''confirm_deactivate_'' then confirm_deactivate_branch srv states q
      else if data = ''back_to_menu'' then back_to_menu_branch states q
      else if data = ''noop'' then (states, [], Returned)
      else (states, [], Completed))"

definition complete_callback_handler ::
  "server \<Rightarrow> userStates \<Rightarrow> callback_query \<Rightarrow> userStates \<times> effect list" where
  \<comment> \<open>This variant answers the query once, before the \<open>try\<close> statement.\<close>
  "complete_callback_handler srv states q =
     (case complete_branches srv states q of
        (states', effs, out) \<Rightarrow> (states', AnswerCallbackQuery None # effs @ catch_all q out))"

definition run_search ::
  "server \<Rightarrow> userStates \<Rightarrow> message \<Rightarrow> string \<Rightarrow> userStates \<times> effect list" where
  \<comment> \<open>The text handler from "Searching for" on.\<close>
  "run_search srv states m searchTerm =
     (let chatId = msg_chat_id m; sent = msg_reply_id m
      in case searchUsers srv searchTerm None None of
           (http, Inl e) \<Rightarrow>
             (states(chatId := None),
              SendMessage chatId (Msg_searching searchTerm) None # http
              @ [EditMessageText chatId sent (Msg_search_failed e) (Some back_keyboard)])
         | (http, Inr searchResults) \<Rightarrow>
             (let us = sr_users searchResults in
              if length us = 0
              then (states(chatId := None),
                    SendMessage chatId (Msg_searching searchTerm) None # http
                    @ [EditMessageText chatId sent (Msg_no_search_results searchTerm)
                         (Some new_search_keyboard)])
              else (states(chatId \<mapsto>
                      empty_session\<lparr>st_search_results := Some us, st_search_term := Some searchTerm,
                                    st_search_page := Some (Num 0)\<rparr>),
                    SendMessage chatId (Msg_searching searchTerm) None # http
                    @ [EditMessageText chatId sent
                         (Msg_search_results (sr_total searchResults) searchTerm)
                         (Some (createSearchResultKeyboard us (Some searchTerm) (Some (Num 0)) None))])))"

definition text_handler :: "server \<Rightarrow> userStates \<Rightarrow> message \<Rightarrow> userStates \<times> effect list" where
  \<comment> \<open>\<open>bot.on('message', ...)\<close>: the search input. A message without text that arrives
      while a search term is awaited makes \<open>msg.text.trim()\<close> throw.\<close>
  "text_handler srv states m =
     (if truthy_str (msg_text m) \<and> startsWith (the (msg_text m)) ''/'' then (states, [])
      else case states (msg_chat_id m) of
             None \<Rightarrow> (states, [])
           | Some userState \<Rightarrow>
               if \<not> st_waiting_for_search userState then (states, [])
               else (case msg_text m of
                       None \<Rightarrow> (states, [UnhandledRejection ''TypeError''])
                     | Some t \<Rightarrow>
                         (let searchTerm = trim t in
                          if searchTerm = []
                          then (states, [SendMessage (msg_chat_id m) Msg_invalid_search_term None])
                          else run_search srv states m searchTerm)))"

fun search_command_matches :: "string \<Rightarrow> bool" where
  \<comment> \<open>The regular expression \<open>/\/search (.+)/\<close>: the text holds \<open>/search\<close>, a space and
      one more character that is not a line break.\<close>
  "search_command_matches [] = False"
| "search_command_matches (c # cs) =
     ((prefix ''/search '' (c # cs)
         \<and> (case drop 8 (c # cs) of [] \<Rightarrow> False | d # ds \<Rightarrow> d \<noteq> CHR 0x0A \<and> d \<noteq> CHR 0x0D))
      \<or> search_command_matches cs)"

definition search_command ::
  "(userStates \<Rightarrow> message \<Rightarrow> userStates \<times> effect list)
     \<Rightarrow> userStates \<Rightarrow> message \<Rightarrow> userStates \<times> effect list" where
  "search_command handler states m =
     (case msg_text m of
        None \<Rightarrow> (states, [])
      | Some t \<Rightarrow> if search_command_matches t then handler states m else (states, []))"

definition quick_search :: "userStates \<Rightarrow> message \<Rightarrow> userStates \<times> effect list" where
  \<comment> \<open>The handler of \<open>/search\<close> takes \<open>(msg, match)\<close>, but \<open>requireAuth\<close> calls it with
      \<open>msg\<close> alone: \<open>match[1]\<close> throws before anything is sent.\<close>
  "quick_search states m = (states, [UnhandledRejection ''TypeError''])"

definition complete_on_message ::
  "config \<Rightarrow> server \<Rightarrow> userStates \<Rightarrow> message \<Rightarrow> userStates \<times> effect list" where
  \<comment> \<open>The \<open>message\<close> listener runs first, then the command handlers whose pattern matches.\<close>
  "complete_on_message cfg srv states m =
     run_handlers
       [requireAuth cfg (text_handler srv),
        on_text ''/start''
          (requireAuth cfg (reply (Msg_welcome (msg_from m)) (Some createMainKeyboard))),
        on_text ''/help'' (requireAuth cfg (reply Msg_help None)),
        on_text ''/menu'' (requireAuth cfg (reply Msg_choose_action (Some createMainKeyboard))),
        on_text ''/whoami'' (requireAuth cfg (reply (Msg_whoami (msg_from m)) None)),
        search_command (requireAuth cfg quick_search)]
       states m"

definition complete_step :: "config \<Rightarrow> server \<Rightarrow> userStates \<Rightarrow> event \<Rightarrow> userStates \<times> effect list" where
  "complete_step cfg srv states ev =
     (case ev of
        Message m \<Rightarrow> complete_on_message cfg srv states m
      | CallbackQuery q \<Rightarrow> requireAuthCallback cfg (complete_callback_handler srv) states q)"

section \<open>Executions\<close>

text \<open>
  An execution is a list of events, each with the behaviour of the remote directory at
  the time the event is handled.
\<close>

type_synonym step_fun = "server \<Rightarrow> userStates \<Rightarrow> event \<Rightarrow> userStates \<times> effect list"

fun run :: "step_fun \<Rightarrow> userStates \<Rightarrow> (server \<times> event) list \<Rightarrow> userStates \<times> effect list" where
  "run step states [] = (states, [])"
| "run step states ((srv, ev) # rest) =
     (case step srv states ev of
        (states', effs) \<Rightarrow>
          (case run step states' rest of
             (states'', effs') \<Rightarrow> (states'', effs @ effs')))"

fun keyboard_of :: "effect \<Rightarrow> keyboard" where
  "keyboard_of (SendMessage c t (Some kb)) = kb"
| "keyboard_of (EditMessageText c m t (Some kb)) = kb"
| "keyboard_of (EditMessageReplyMarkup c m kb) = kb"
| "keyboard_of e = []"

definition offered :: "effect list \<Rightarrow> string list" where
  \<comment> \<open>The callback data of every button the bot has put on a keyboard.\<close>
  "offered effs = concat (map (\<lambda>e. map callback_data (concat (keyboard_of e))) effs)"

text \<open>
  A button event can only carry the callback data of a button that the bot has shown.
  \<open>pressable step states seen evs\<close> holds when every button event of \<open>evs\<close> presses a
  button shown before it, \<open>seen\<close> being what the bot did before \<open>evs\<close>.
\<close>

fun pressable :: "step_fun \<Rightarrow> userStates \<Rightarrow> effect list \<Rightarrow> (server \<times> event) list \<Rightarrow> bool" where
  "pressable step states seen [] = True"
| "pressable step states seen ((srv, ev) # rest) =
     ((case ev of
         CallbackQuery q \<Rightarrow> cq_data q \<in> set (offered seen)
       | Message m \<Rightarrow> True)
      \<and> (case step srv states ev of
            (states', effs) \<Rightarrow> pressable step states' (seen @ effs) rest))"

fun is_prompt :: "string \<Rightarrow> effect \<Rightarrow> bool" where
  \<comment> \<open>The confirmation prompt for the account \<open>userId\<close>.\<close>
  "is_prompt userId (EditMessageText c m t kb) =
     (t = Msg_confirm_deactivation userId \<and> kb = Some (confirm_keyboard userId))"
| "is_prompt userId e = False"

fun confirmed_first :: "effect list \<Rightarrow> effect list \<Rightarrow> bool" where
  \<comment> \<open>Every deactivation request of the second list comes after a confirmation prompt
      for the same account, in the first list or earlier in the second.\<close>
  "confirmed_first earlier [] = True"
| "confirmed_first earlier (Http (DeactivateReq userId erase) # rest) =
     (list_ex (is_prompt userId) earlier
      \<and> confirmed_first (earlier @ [Http (DeactivateReq userId erase)]) rest)"
| "confirmed_first earlier (e # rest) = confirmed_first (earlier @ [e]) rest"

definition confirm_free :: "keyboard \<Rightarrow> bool" where
  \<comment> \<open>No button of the keyboard carries callback data that the handler would take as a
      confirmation.\<close>
  "confirm_free kb =
     list_all (\<lambda>b. \<not> startsWith (callback_data b) ''confirm_deactivate_'') (concat kb)"

definition harmless :: "effect \<Rightarrow> bool" where
  \<comment> \<open>An effect that shows no confirmation button, unless it is a confirmation prompt.\<close>
  "harmless e = (confirm_free (keyboard_of e) \<or> (\<exists>userId. is_prompt userId e))"

fun is_deactivation :: "effect \<Rightarrow> bool" where
  "is_deactivation (Http (DeactivateReq userId erase)) = True"
| "is_deactivation e = False"

fun http_requests :: "effect list \<Rightarrow> request list" where
  \<comment> \<open>The requests sent to the remote directory, in order.\<close>
  "http_requests [] = []"
| "http_requests (Http r # effs) = r # http_requests effs"
| "http_requests (e # effs) = http_requests effs"

fun notifies :: "effect \<Rightarrow> bool" where
  \<comment> \<open>The effects that show something to the operator; answering a callback query
      without a text only ends the button's progress indicator.\<close>
  "notifies (SendMessage c t kb) = True"
| "notifies (EditMessageText c m t kb) = True"
| "notifies (EditMessageReplyMarkup c m kb) = True"
| "notifies (AnswerCallbackQuery (Some t)) = True"
| "notifies e = False"

section \<open>The pagination rule in the words of the specification\<close>

definition paginate :: "'a list \<Rightarrow> nat \<Rightarrow> nat \<Rightarrow> 'a list \<times> bool \<times> bool" where
  \<comment> \<open>\<open>paginate(items, page, pageSize) -> (pageItems, hasPrev, hasNext)\<close>, page numbers and
      page sizes being natural numbers.\<close>
  "paginate items pageNo pageSize =
     (let startIndex = pageNo * pageSize;
          endIndex = min (startIndex + pageSize) (length items)
      in (take (endIndex - startIndex) (drop startIndex items),
          pageNo > 0,
          endIndex < length items))"

definition page_layout ::
  "(matrix_user \<Rightarrow> button list) \<Rightarrow> string \<Rightarrow> nat \<Rightarrow> matrix_user list \<times> bool \<times> bool \<Rightarrow> keyboard" where
  \<comment> \<open>A keyboard for one page: a row per item, then the row of the "Previous" and "Next"
      controls that exist, if any.\<close>
  "page_layout row pfx pageNo p =
     (case p of
        (pageItems, hasPrev, hasNext) \<Rightarrow>
          map row pageItems
          @ (if hasPrev \<or> hasNext
             then [(if hasPrev
                    then [\<lparr>btn_text = ''Previous'',
                           callback_data = pfx @ num_to_string (Num (int pageNo - 1))\<rparr>]
                    else [])
                   @ (if hasNext
                      then [\<lparr>btn_text = ''Next'',
                             callback_data = pfx @ num_to_string (Num (int pageNo + 1))\<rparr>]
                      else [])]
             else []))"

section \<open>Example inputs\<close>

definition directory_server :: "matrix_user list \<Rightarrow> server" where
  \<comment> \<open>A remote directory that holds the given accounts and serves the listing in pages,
      as \<open>GET users(offset, limit)\<close> does.\<close>
  "directory_server accounts =
     \<lparr>list_users = (\<lambda>from limit. Inr (Some (take (nat limit) (drop (nat from) accounts)))),
      deactivate = (\<lambda>userId erase. Inr ()),
      user_info = (\<lambda>userId. case find (\<lambda>a. name a = userId) accounts of
                               None \<Rightarrow> Inl ''User not found''
                             | Some a \<Rightarrow> Inr a)\<rparr>"

definition account :: "string \<Rightarrow> string option \<Rightarrow> bool \<Rightarrow> bool \<Rightarrow> matrix_user" where
  "account userId shown isDeactivated isAdmin =
     \<lparr>name = userId, displayname = shown, deactivated = isDeactivated, admin = isAdmin,
      user_type = None\<rparr>"

definition numbered_accounts :: "nat \<Rightarrow> matrix_user list" where
  \<comment> \<open>\<open>@user0:x\<close>, \<open>@user1:x\<close>, ...: active accounts without admin rights.\<close>
  "numbered_accounts n =
     map (\<lambda>i. account (''@user'' @ digits_of i @ '':x'') None False False) [0..<n]"

definition operator :: tg_user where
  "operator = \<lparr>tg_id = 42, username = None\<rparr>"

definition only_operator :: config where
  "only_operator = \<lparr>AUTHORIZED_USERS = [Num 42], AUTHORIZED_USERNAMES = []\<rparr>"

definition query_on :: "int \<Rightarrow> string \<Rightarrow> callback_query" where
  \<comment> \<open>The operator presses, on the given message of chat 1, the button with the given
      callback data.\<close>
  "query_on messageId data =
     \<lparr>cq_from = operator, cq_chat_id = 1, cq_message_id = messageId, cq_data = data\<rparr>"

definition press_on :: "int \<Rightarrow> string \<Rightarrow> event" where
  "press_on messageId data = CallbackQuery (query_on messageId data)"

definition press :: "string \<Rightarrow> event" where
  "press data = press_on 5 data"

definition say :: "string \<Rightarrow> event" where
  \<comment> \<open>The operator sends a text to chat 1.\<close>
  "say t = Message \<lparr>msg_from = operator, msg_chat_id = 1, msg_text = Some t, msg_reply_id = 6\<rparr>"

definition twelve :: server where
  "twelve = directory_server (numbered_accounts 12)"

definition select_on_page_1 :: "(server \<times> event) list" where
  \<comment> \<open>The operator opens the deactivation menu, goes to the second page and selects an
      account there: the confirmation prompt is showing.\<close>
  "select_on_page_1 =
     [(twelve, say ''/start''),
      (twelve, press ''deactivate_menu''),
      (twelve, press ''users_page_1''),
      (twelve, press ''deactivate_@user11:x'')]"

definition listing_then_cleared :: "(server \<times> event) list" where
  \<comment> \<open>Two menus are open in the chat. The first shows the deactivation listing; on the
      second the operator opens the listing and goes back to the menu, which deletes the
      stored object. The "Next" button of the first message is still there.\<close>
  "listing_then_cleared =
     [(twelve, say ''/start''),
      (twelve, say ''/start''),
      (twelve, press_on 6 ''deactivate_menu''),
      (twelve, press_on 7 ''deactivate_menu''),
      (twelve, press_on 7 ''back_to_menu'')]"

definition confirmed_deactivation :: "(server \<times> event) list" where
  "confirmed_deactivation =
     [(twelve, say ''/start''),
      (twelve, press ''deactivate_menu''),
      (twelve, press ''deactivate_@user1:x''),
      (twelve, press ''confirm_deactivate_@user1:x'')]"

definition scenario_B_accounts :: "matrix_user list" where
  "scenario_B_accounts =
     [account ''@john:x'' (Some ''J. Public'') False False,
      account ''@mary:x'' (Some ''Mary Johnson'') False False]"

definition mixed_accounts :: "matrix_user list" where
  \<comment> \<open>An ordinary account, an administrator and a deactivated account.\<close>
  "mixed_accounts =
     [account ''@alice:x'' None False False,
      account ''@root:x'' None False True,
      account ''@old:x'' None True False]"

section \<open>Auxiliary facts\<close>

lemma startsWith_split: "startsWith s p \<Longrightarrow> s = p @ substring s (length p)"
  by (auto simp add: startsWith_def substring_def prefix_def)

lemma includes_str_sublist: "includes_str s t \<longleftrightarrow> sublist t s"
  by (induction s) (auto simp add: sublist_Cons_right)

lemma http_requests_append: "http_requests (xs @ ys) = http_requests xs @ http_requests ys"
  by (induction xs rule: http_requests.induct) simp_all

lemma http_requests_set: "r \<in> set (http_requests effs) \<longleftrightarrow> Http r \<in> set effs"
  by (induction effs rule: http_requests.induct) auto

lemma getUsers_requests:
  "http_requests (fst (getUsers srv a b)) = [GetUsersReq (default_arg a 0) (default_arg b 100)]"
  by (simp add: getUsers_def Let_def split: sum.splits)

lemma deactivateUser_requests:
  "http_requests (fst (deactivateUser srv userId)) = [DeactivateReq userId False]"
  by (simp add: deactivateUser_def split: sum.splits)

lemma getUserInfo_requests:
  "http_requests (fst (getUserInfo srv userId)) = [GetUserInfoReq userId]"
  by (simp add: getUserInfo_def split: sum.splits)

lemma searchUsers_requests:
  "http_requests (fst (searchUsers srv t a b)) = [GetUsersReq 0 1000]"
  by (simp add: searchUsers_def Let_def split: sum.splits)

text \<open>Slicing with natural-number bounds.\<close>

lemma slice_js_nat:
  assumes "e \<le> length xs"
  shows "slice_js xs (Num (int a)) (Num (int e)) = take (e - a) (drop a xs)"
proof (cases "a \<le> length xs")
  case True
  then show ?thesis
    using assms by (simp add: slice_js_def to_index_def Let_def nat_diff_distrib')
next
  case False
  then show ?thesis
    using assms by (simp add: slice_js_def to_index_def Let_def)
qed

lemma page_bounds:
  "num_min (num_add (Num (int a)) (Num (int n))) (Num (int len)) = Num (int (min (a + n) len))"
  by (simp add: min_def)

lemma nav_row_nat:
  "nav_row pfx (Num (int pageNo)) (Num (int e)) len =
     (if pageNo > 0
      then [\<lparr>btn_text = ''Previous'', callback_data = pfx @ num_to_string (Num (int pageNo - 1))\<rparr>]
      else [])
     @ (if e < len
        then [\<lparr>btn_text = ''Next'', callback_data = pfx @ num_to_string (Num (int pageNo + 1))\<rparr>]
        else [])"
  by (simp add: nav_row_def num_gt_def)

lemma page_slice:
  "slice_js us (num_mul (Num (int pageNo)) (Num (int n)))
       (num_min (num_add (num_mul (Num (int pageNo)) (Num (int n))) (Num (int n)))
                (Num (int (length us))))
     = fst (paginate us pageNo n)"
proof -
  define a where "a = pageNo * n"
  have start: "num_mul (Num (int pageNo)) (Num (int n)) = Num (int a)"
    by (simp add: a_def)
  have sl: "slice_js us (Num (int a)) (Num (int (min (a + n) (length us))))
            = take (min (a + n) (length us) - a) (drop a us)"
    by (rule slice_js_nat) simp
  show ?thesis
    unfolding start page_bounds sl by (simp add: paginate_def Let_def a_def)
qed

lemma page_nav:
  "nav_row pfx (Num (int pageNo))
       (num_min (num_add (num_mul (Num (int pageNo)) (Num (int n))) (Num (int n)))
                (Num (int (length us))))
       (length us)
     = (if pageNo > 0
        then [\<lparr>btn_text = ''Previous'', callback_data = pfx @ num_to_string (Num (int pageNo - 1))\<rparr>]
        else [])
       @ (if snd (snd (paginate us pageNo n))
          then [\<lparr>btn_text = ''Next'', callback_data = pfx @ num_to_string (Num (int pageNo + 1))\<rparr>]
          else [])"
proof -
  define a where "a = pageNo * n"
  have start: "num_mul (Num (int pageNo)) (Num (int n)) = Num (int a)"
    by (simp add: a_def)
  show ?thesis
    unfolding start page_bounds nav_row_nat
    by (simp add: paginate_def Let_def a_def)
qed

lemma page_layout_eq:
  "page_layout row pfx pageNo (paginate us pageNo n)
     = map row (fst (paginate us pageNo n))
       @ (let navRow =
                (if pageNo > 0
                 then [\<lparr>btn_text = ''Previous'',
                        callback_data = pfx @ num_to_string (Num (int pageNo - 1))\<rparr>]
                 else [])
                @ (if snd (snd (paginate us pageNo n))
                   then [\<lparr>btn_text = ''Next'',
                          callback_data = pfx @ num_to_string (Num (int pageNo + 1))\<rparr>]
                   else [])
          in if length navRow > 0 then [navRow] else [])"
  by (auto simp add: page_layout_def paginate_def Let_def min_def split: if_splits)

text \<open>The requests that each branch of the callback handlers sends.\<close>

lemma get_users_branch_requests:
  "http_requests (fst (snd (get_users_branch srv states q))) = [GetUsersReq 0 100]"
proof -
  obtain h r where g: "getUsers srv None None = (h, r)"
    by (cases "getUsers srv None None")
  then have "http_requests h = [GetUsersReq 0 100]"
    using getUsers_requests[of srv None None] by (simp add: default_arg_def)
  then show ?thesis
    using g by (cases r) (simp_all add: get_users_branch_def Let_def http_requests_append)
qed

lemma secure_deactivate_menu_branch_requests:
  "http_requests (fst (snd (secure_deactivate_menu_branch srv states q))) = [GetUsersReq 0 100]"
proof -
  obtain h r where g: "getUsers srv None None = (h, r)"
    by (cases "getUsers srv None None")
  then have "http_requests h = [GetUsersReq 0 100]"
    using getUsers_requests[of srv None None] by (simp add: default_arg_def)
  then show ?thesis
    using g by (cases r) (simp_all add: secure_deactivate_menu_branch_def Let_def http_requests_append)
qed

lemma complete_deactivate_menu_branch_requests:
  "http_requests (fst (snd (complete_deactivate_menu_branch srv states q))) = [GetUsersReq 0 100]"
proof -
  obtain h r where g: "getUsers srv None None = (h, r)"
    by (cases "getUsers srv None None")
  then have "http_requests h = [GetUsersReq 0 100]"
    using getUsers_requests[of srv None None] by (simp add: default_arg_def)
  then show ?thesis
    using g by (cases r) (simp_all add: complete_deactivate_menu_branch_def Let_def http_requests_append)
qed

lemma confirm_deactivate_branch_requests:
  "http_requests (fst (snd (confirm_deactivate_branch srv states q)))
     = [DeactivateReq (substring (cq_data q) (length ''confirm_deactivate_'')) False]"
proof -
  let ?u = "substring (cq_data q) (length ''confirm_deactivate_'')"
  obtain h r where d: "deactivateUser srv ?u = (h, r)"
    by (cases "deactivateUser srv ?u")
  then have "http_requests h = [DeactivateReq ?u False]"
    using deactivateUser_requests[of srv ?u] by simp
  then show ?thesis
    using d by (cases r) (simp_all add: confirm_deactivate_branch_def Let_def http_requests_append)
qed

lemma userinfo_branch_requests:
  "http_requests (fst (snd (userinfo_branch srv states q)))
     = [GetUserInfoReq (substring (cq_data q) (length ''userinfo_''))]"
proof -
  let ?u = "substring (cq_data q) (length ''userinfo_'')"
  obtain h r where d: "getUserInfo srv ?u = (h, r)"
    by (cases "getUserInfo srv ?u")
  then have "http_requests h = [GetUserInfoReq ?u]"
    using getUserInfo_requests[of srv ?u] by simp
  then show ?thesis
    using d by (cases r) (simp_all add: userinfo_branch_def Let_def http_requests_append)
qed

lemma local_branch_requests:
  "http_requests (fst (snd (search_users_branch states q))) = []"
  "http_requests (fst (snd (secure_users_page_branch states q))) = []"
  "http_requests (fst (snd (deactivate_branch states q))) = []"
  "http_requests (fst (snd (back_to_menu_branch states q))) = []"
  "http_requests (fst (snd (search_page_branch states q))) = []"
  "http_requests (fst (snd (back_to_search_branch states q))) = []"
  "http_requests (fst (snd (deactivate_page_branch states q))) = []"
  by (simp_all add: search_users_branch_def secure_users_page_branch_def deactivate_branch_def
      back_to_menu_branch_def search_page_branch_def back_to_search_branch_def
      deactivate_page_branch_def Let_def split: option.splits)

lemmas branch_requests =
  get_users_branch_requests secure_deactivate_menu_branch_requests
  complete_deactivate_menu_branch_requests confirm_deactivate_branch_requests
  userinfo_branch_requests local_branch_requests

lemma secure_branches_requests:
  "http_requests (fst (snd (secure_branches srv states q))) =
     (let data = cq_data q in
      if data = ''show_my_info'' then []
      else if data = ''search_users'' then []
      else if data = ''get_users'' then [GetUsersReq 0 100]
      else if data = ''deactivate_menu'' then [GetUsersReq 0 100]
      else if startsWith data ''users_page_'' then []
      else if startsWith data ''deactivate_'' then []
      else if startsWith data ''confirm_deactivate_''
      then [DeactivateReq (substring data (length ''confirm_deactivate_'')) False]
      else [])"
  unfolding secure_branches_def Let_def
  by (simp only: if_distrib[where f = "\<lambda>x. http_requests (fst (snd x))"] branch_requests
      fst_conv snd_conv http_requests.simps if_cancel)

lemma complete_branches_requests:
  "http_requests (fst (snd (complete_branches srv states q))) =
     (let data = cq_data q in
      if data = ''show_my_info'' then []
      else if data = ''search_users'' then []
      else if startsWith data ''search_page_'' then []
      else if startsWith data ''userinfo_''
      then [GetUserInfoReq (substring data (length ''userinfo_''))]
      else if data = ''back_to_search'' then []
      else if data = ''get_users'' then [GetUsersReq 0 100]
      else if data = ''deactivate_menu'' then [GetUsersReq 0 100]
      else if startsWith data ''deactivate_page_'' then []
      else if startsWith data ''deactivate_'' then []
      else if startsWith data ''confirm_deactivate_''
      then [DeactivateReq (substring data (length ''confirm_deactivate_'')) False]
      else [])"
  unfolding complete_branches_def Let_def
  by (simp only: if_distrib[where f = "\<lambda>x. http_requests (fst (snd x))"] branch_requests
      fst_conv snd_conv http_requests.simps if_cancel)

text \<open>Which keyboards carry a confirmation button.\<close>

lemma nav_row_tokens:
  "b \<in> set (nav_row pfx pg e len) \<Longrightarrow> prefix pfx (callback_data b)"
  by (auto simp add: nav_row_def split: if_splits)

lemma confirm_free_fixed:
  "confirm_free back_keyboard"
  "confirm_free createMainKeyboard"
  "confirm_free (after_deactivation_keyboard label)"
  "confirm_free new_search_keyboard"
  "confirm_free (userinfo_keyboard userInfo userId)"
  "confirm_free []"
  by (simp_all add: confirm_free_def back_keyboard_def back_button_def createMainKeyboard_def
      after_deactivation_keyboard_def new_search_keyboard_def userinfo_keyboard_def startsWith_def)

lemma confirm_free_secure_selection:
  "confirm_free (secure_createUserSelectionKeyboard us pg n)"
proof -
  have "\<not> startsWith (callback_data b) ''confirm_deactivate_''"
    if "b \<in> set (nav_row ''users_page_'' p e len)" for b p e len
    using nav_row_tokens[OF that] by (auto simp add: startsWith_def prefix_def)
  then show ?thesis
    by (auto simp add: confirm_free_def secure_createUserSelectionKeyboard_def Let_def list_all_iff
        secure_user_button_def back_button_def startsWith_def)
qed

lemma confirm_free_complete_selection:
  "confirm_free (complete_createUserSelectionKeyboard us pg n None)"
proof -
  have "\<not> startsWith (callback_data b) ''confirm_deactivate_''"
    if "b \<in> set (nav_row (''deactivate'' @ ''_page_'') p e len)" for b p e len
    using nav_row_tokens[OF that] by (auto simp add: startsWith_def prefix_def)
  then show ?thesis
    by (auto simp add: confirm_free_def complete_createUserSelectionKeyboard_def Let_def list_all_iff
        complete_user_button_def back_button_def startsWith_def default_arg_def)
qed

lemma confirm_free_search_results:
  "confirm_free (createSearchResultKeyboard us t pg n)"
proof -
  have "\<not> startsWith (callback_data b) ''confirm_deactivate_''"
    if "b \<in> set (nav_row ''search_page_'' p e len)" for b p e len
    using nav_row_tokens[OF that] by (auto simp add: startsWith_def prefix_def)
  then show ?thesis
    by (auto simp add: confirm_free_def createSearchResultKeyboard_def Let_def list_all_iff
        search_result_row_def back_button_def startsWith_def split: if_splits)
qed

lemmas confirm_free_keyboards =
  confirm_free_fixed confirm_free_secure_selection confirm_free_complete_selection
  confirm_free_search_results

text \<open>
  Every keyboard that a handler shows is free of confirmation buttons, except the
  keyboard of a confirmation prompt.
\<close>

lemma harmless_simps:
  "harmless (Http r)"
  "harmless (AnswerCallbackQuery t)"
  "harmless (Console l)"
  "harmless (UnhandledRejection x)"
  "harmless (SendMessage c txt None)"
  "harmless (EditMessageText c m txt None)"
  "confirm_free kb \<Longrightarrow> harmless (SendMessage c txt (Some kb))"
  "confirm_free kb \<Longrightarrow> harmless (EditMessageText c m txt (Some kb))"
  "confirm_free kb \<Longrightarrow> harmless (EditMessageReplyMarkup c m kb)"
  "harmless (EditMessageText c m (Msg_confirm_deactivation u) (Some (confirm_keyboard u)))"
  by (auto simp add: harmless_def confirm_free_def)

lemma harmless_client:
  "list_all harmless (fst (getUsers srv a b))"
  "list_all harmless (fst (deactivateUser srv userId))"
  "list_all harmless (fst (getUserInfo srv userId))"
  "list_all harmless (fst (searchUsers srv t a b))"
  by (auto simp add: getUsers_def deactivateUser_def getUserInfo_def searchUsers_def Let_def
      harmless_simps split: sum.splits)

lemma harmless_get_users_branch: "list_all harmless (fst (snd (get_users_branch srv states q)))"
proof -
  obtain h r where g: "getUsers srv None None = (h, r)"
    by (cases "getUsers srv None None")
  then have "list_all harmless h"
    using harmless_client(1)[of srv None None] by simp
  then show ?thesis
    using g by (cases r) (simp_all add: get_users_branch_def Let_def harmless_simps confirm_free_keyboards)
qed

lemma harmless_secure_deactivate_menu_branch:
  "list_all harmless (fst (snd (secure_deactivate_menu_branch srv states q)))"
proof -
  obtain h r where g: "getUsers srv None None = (h, r)"
    by (cases "getUsers srv None None")
  then have "list_all harmless h"
    using harmless_client(1)[of srv None None] by simp
  then show ?thesis
    using g
    by (cases r)
      (simp_all add: secure_deactivate_menu_branch_def Let_def harmless_simps confirm_free_keyboards)
qed

lemma harmless_complete_deactivate_menu_branch:
  "list_all harmless (fst (snd (complete_deactivate_menu_branch srv states q)))"
proof -
  obtain h r where g: "getUsers srv None None = (h, r)"
    by (cases "getUsers srv None None")
  then have "list_all harmless h"
    using harmless_client(1)[of srv None None] by simp
  then show ?thesis
    using g
    by (cases r)
      (simp_all add: complete_deactivate_menu_branch_def Let_def harmless_simps confirm_free_keyboards)
qed

lemma harmless_confirm_deactivate_branch:
  "list_all harmless (fst (snd (confirm_deactivate_branch srv states q)))"
proof -
  let ?u = "substring (cq_data q) (length ''confirm_deactivate_'')"
  obtain h r where d: "deactivateUser srv ?u = (h, r)"
    by (cases "deactivateUser srv ?u")
  then have "list_all harmless h"
    using harmless_client(2)[of srv ?u] by simp
  then show ?thesis
    using d
    by (cases r)
      (simp_all add: confirm_deactivate_branch_def Let_def harmless_simps confirm_free_keyboards)
qed

lemma harmless_userinfo_branch: "list_all harmless (fst (snd (userinfo_branch srv states q)))"
proof -
  let ?u = "substring (cq_data q) (length ''userinfo_'')"
  obtain h r where d: "getUserInfo srv ?u = (h, r)"
    by (cases "getUserInfo srv ?u")
  then have "list_all harmless h"
    using harmless_client(3)[of srv ?u] by simp
  then show ?thesis
    using d by (cases r) (simp_all add: userinfo_branch_def Let_def harmless_simps confirm_free_keyboards)
qed

lemma harmless_local_branches:
  "list_all harmless (fst (snd (search_users_branch states q)))"
  "list_all harmless (fst (snd (secure_users_page_branch states q)))"
  "list_all harmless (fst (snd (deactivate_branch states q)))"
  "list_all harmless (fst (snd (back_to_menu_branch states q)))"
  "list_all harmless (fst (snd (search_page_branch states q)))"
  "list_all harmless (fst (snd (back_to_search_branch states q)))"
  "list_all harmless (fst (snd (deactivate_page_branch states q)))"
  by (simp_all add: search_users_branch_def secure_users_page_branch_def deactivate_branch_def
      back_to_menu_branch_def search_page_branch_def back_to_search_branch_def
      deactivate_page_branch_def Let_def harmless_simps confirm_free_keyboards
      split: option.splits)

lemmas harmless_branches =
  harmless_get_users_branch harmless_secure_deactivate_menu_branch
  harmless_complete_deactivate_menu_branch harmless_confirm_deactivate_branch
  harmless_userinfo_branch harmless_local_branches

lemma harmless_secure_branches: "list_all harmless (fst (snd (secure_branches srv states q)))"
  unfolding secure_branches_def Let_def
  by (simp only: if_distrib[where f = "\<lambda>x. list_all harmless (fst (snd x))"] harmless_branches
      fst_conv snd_conv list.pred_inject harmless_simps confirm_free_keyboards if_True if_cancel simp_thms)

lemma harmless_complete_branches: "list_all harmless (fst (snd (complete_branches srv states q)))"
  unfolding complete_branches_def Let_def
  by (simp only: if_distrib[where f = "\<lambda>x. list_all harmless (fst (snd x))"] harmless_branches
      fst_conv snd_conv list.pred_inject harmless_simps confirm_free_keyboards if_True if_cancel simp_thms)

text \<open>From the branches to whole steps.\<close>

lemma catch_all_plain:
  "http_requests (catch_all q out) = []" "list_all harmless (catch_all q out)"
  by (cases out; simp add: catch_all_def harmless_simps confirm_free_keyboards)+

lemma secure_callback_handler_requests:
  "http_requests (snd (secure_callback_handler srv states q))
     = http_requests (fst (snd (secure_branches srv states q)))"
  by (cases "secure_branches srv states q")
    (simp add: secure_callback_handler_def http_requests_append catch_all_plain)

lemma complete_callback_handler_requests:
  "http_requests (snd (complete_callback_handler srv states q))
     = http_requests (fst (snd (complete_branches srv states q)))"
  by (cases "complete_branches srv states q")
    (simp add: complete_callback_handler_def http_requests_append catch_all_plain)

lemma harmless_secure_callback_handler:
  "list_all harmless (snd (secure_callback_handler srv states q))"
  using harmless_secure_branches[of srv states q]
  by (cases "secure_branches srv states q")
    (simp add: secure_callback_handler_def harmless_simps catch_all_plain)

lemma harmless_complete_callback_handler:
  "list_all harmless (snd (complete_callback_handler srv states q))"
  using harmless_complete_branches[of srv states q]
  by (cases "complete_branches srv states q")
    (simp add: complete_callback_handler_def harmless_simps catch_all_plain)

lemma requireAuthCallback_requests:
  "http_requests (snd (requireAuthCallback cfg h states q))
     = (if isAuthorized cfg (cq_from q) then http_requests (snd (h states q)) else [])"
  by (cases "h states q") (simp add: requireAuthCallback_def Let_def)

lemma harmless_requireAuthCallback:
  "list_all harmless (snd (h states q)) \<Longrightarrow> list_all harmless (snd (requireAuthCallback cfg h states q))"
  by (cases "h states q") (simp add: requireAuthCallback_def Let_def harmless_simps)

lemma requireAuth_all:
  assumes "\<And>l. P (Console l)" and "P (SendMessage (msg_chat_id m) Msg_access_denied None)"
    and "list_all P (snd (h states m))"
  shows "list_all P (snd (requireAuth cfg h states m))"
  using assms by (cases "h states m") (simp add: requireAuth_def Let_def)

lemma on_text_all:
  "list_all P (snd (h states m)) \<Longrightarrow> list_all P (snd (on_text cmd h states m))"
  by (simp add: on_text_def split: option.splits)

lemma search_command_all:
  "list_all P (snd (h states m)) \<Longrightarrow> list_all P (snd (search_command h states m))"
  by (simp add: search_command_def split: option.splits)

lemma run_handlers_all:
  "(\<And>h st. h \<in> set hs \<Longrightarrow> list_all P (snd (h st m))) \<Longrightarrow> list_all P (snd (run_handlers hs states m))"
proof (induction hs arbitrary: states)
  case Nil
  then show ?case by simp
next
  case (Cons h hs)
  obtain s1 e1 where h: "h states m = (s1, e1)"
    by (cases "h states m")
  obtain s2 e2 where r: "run_handlers hs s1 m = (s2, e2)"
    by (cases "run_handlers hs s1 m")
  have "list_all P e1"
    using Cons.prems[of h states] h by simp
  moreover have "list_all P e2"
    using Cons.IH[of s1] Cons.prems r by simp
  ultimately show ?case
    using h r by simp
qed

lemma run_search_all:
  assumes "\<And>c t. P (SendMessage c t None)" and "\<And>c i t kb. confirm_free kb \<Longrightarrow> P (EditMessageText c i t (Some kb))"
    and "\<And>r. P (Http (GetUsersReq 0 1000))" and "\<And>l. P (Console l)"
  shows "list_all P (snd (run_search srv states m t))"
proof -
  obtain h r where s: "searchUsers srv t None None = (h, r)"
    by (cases "searchUsers srv t None None")
  have "list_all P h"
    using s assms(3,4) by (auto simp add: searchUsers_def Let_def split: sum.splits)
  then show ?thesis
    using s assms(1,2) by (cases r) (simp_all add: run_search_def Let_def confirm_free_keyboards)
qed

lemma text_handler_all:
  assumes "\<And>c t. P (SendMessage c t None)" and "\<And>c i t kb. confirm_free kb \<Longrightarrow> P (EditMessageText c i t (Some kb))"
    and "\<And>r. P (Http (GetUsersReq 0 1000))" and "\<And>l. P (Console l)" and "\<And>x. P (UnhandledRejection x)"
  shows "list_all P (snd (text_handler srv states m))"
  using run_search_all[of P srv states m, OF assms(1-4)] assms(1,5)
  by (simp add: text_handler_def Let_def split: option.splits)

lemma secure_on_message_all:
  assumes "\<And>l. P (Console l)" and "\<And>c t kb. confirm_free (case kb of None \<Rightarrow> [] | Some k \<Rightarrow> k) \<Longrightarrow> P (SendMessage c t kb)"
  shows "list_all P (snd (secure_on_message cfg states m))"
  unfolding secure_on_message_def
  by (rule run_handlers_all)
    (auto intro!: on_text_all requireAuth_all assms simp add: reply_def confirm_free_keyboards)

lemma complete_on_message_all:
  assumes "\<And>l. P (Console l)" and "\<And>c t kb. confirm_free (case kb of None \<Rightarrow> [] | Some k \<Rightarrow> k) \<Longrightarrow> P (SendMessage c t kb)"
    and "\<And>c i t kb. confirm_free kb \<Longrightarrow> P (EditMessageText c i t (Some kb))"
    and "\<And>r. P (Http (GetUsersReq 0 1000))" and "\<And>x. P (UnhandledRejection x)"
  shows "list_all P (snd (complete_on_message cfg srv states m))"
  unfolding complete_on_message_def
  by (rule run_handlers_all)
    (auto intro!: on_text_all requireAuth_all search_command_all text_handler_all assms
      simp add: reply_def quick_search_def confirm_free_keyboards)

lemma harmless_steps:
  "list_all harmless (snd (secure_step cfg srv states ev))"
  "list_all harmless (snd (complete_step cfg srv states ev))"
proof -
  have m1: "list_all harmless (snd (secure_on_message cfg states m))" for m
    by (rule secure_on_message_all) (auto simp add: harmless_def confirm_free_keyboards split: option.splits)
  have m2: "list_all harmless (snd (complete_on_message cfg srv states m))" for m
    by (rule complete_on_message_all) (auto simp add: harmless_def confirm_free_keyboards split: option.splits)
  show "list_all harmless (snd (secure_step cfg srv states ev))"
    using m1 harmless_requireAuthCallback[OF harmless_secure_callback_handler]
    by (cases ev) (simp_all add: secure_step_def)
  show "list_all harmless (snd (complete_step cfg srv states ev))"
    using m2 harmless_requireAuthCallback[OF harmless_complete_callback_handler]
    by (cases ev) (simp_all add: complete_step_def)
qed

lemma no_deactivation_requests:
  "list_all (\<lambda>e. \<not> is_deactivation e) effs \<Longrightarrow> DeactivateReq u er \<notin> set (http_requests effs)"
  by (induction effs rule: http_requests.induct) auto

lemma message_steps_no_deactivation:
  "DeactivateReq u er \<notin> set (http_requests (snd (secure_on_message cfg states m)))"
  "DeactivateReq u er \<notin> set (http_requests (snd (complete_on_message cfg srv states m)))"
proof -
  show "DeactivateReq u er \<notin> set (http_requests (snd (secure_on_message cfg states m)))"
    by (rule no_deactivation_requests, rule secure_on_message_all) simp_all
  show "DeactivateReq u er \<notin> set (http_requests (snd (complete_on_message cfg srv states m)))"
    by (rule no_deactivation_requests, rule complete_on_message_all) simp_all
qed

lemma secure_step_deactivation:
  assumes "Http (DeactivateReq u er) \<in> set (snd (secure_step cfg srv states ev))"
  shows "\<exists>q. ev = CallbackQuery q \<and> isAuthorized cfg (cq_from q)
             \<and> cq_data q = ''confirm_deactivate_'' @ u \<and> \<not> er"
proof (cases ev)
  case (Message m)
  then show ?thesis
    using assms message_steps_no_deactivation(1)[of u er cfg states m]
    by (simp add: secure_step_def http_requests_set)
next
  case (CallbackQuery q)
  have "DeactivateReq u er \<in> set (http_requests (snd (secure_step cfg srv states ev)))"
    using assms by (simp add: http_requests_set)
  then have a: "isAuthorized cfg (cq_from q)"
    and r: "DeactivateReq u er \<in> set (http_requests (fst (snd (secure_branches srv states q))))"
    using CallbackQuery
    by (simp_all add: secure_step_def requireAuthCallback_requests secure_callback_handler_requests
        split: if_splits)
  from r have "startsWith (cq_data q) ''confirm_deactivate_''
               \<and> u = substring (cq_data q) (length ''confirm_deactivate_'') \<and> \<not> er"
    unfolding secure_branches_requests Let_def by (simp split: if_splits)
  then show ?thesis
    using a CallbackQuery startsWith_split[of "cq_data q" "''confirm_deactivate_''"] by simp
qed

lemma complete_step_deactivation:
  assumes "Http (DeactivateReq u er) \<in> set (snd (complete_step cfg srv states ev))"
  shows "\<exists>q. ev = CallbackQuery q \<and> isAuthorized cfg (cq_from q)
             \<and> cq_data q = ''confirm_deactivate_'' @ u \<and> \<not> er"
proof (cases ev)
  case (Message m)
  then show ?thesis
    using assms message_steps_no_deactivation(2)[of u er cfg srv states m]
    by (simp add: complete_step_def http_requests_set)
next
  case (CallbackQuery q)
  have "DeactivateReq u er \<in> set (http_requests (snd (complete_step cfg srv states ev)))"
    using assms by (simp add: http_requests_set)
  then have a: "isAuthorized cfg (cq_from q)"
    and r: "DeactivateReq u er \<in> set (http_requests (fst (snd (complete_branches srv states q))))"
    using CallbackQuery
    by (simp_all add: complete_step_def requireAuthCallback_requests complete_callback_handler_requests
        split: if_splits)
  from r have "startsWith (cq_data q) ''confirm_deactivate_''
               \<and> u = substring (cq_data q) (length ''confirm_deactivate_'') \<and> \<not> er"
    unfolding complete_branches_requests Let_def by (simp split: if_splits)
  then show ?thesis
    using a CallbackQuery startsWith_split[of "cq_data q" "''confirm_deactivate_''"] by simp
qed

text \<open>Executions: a deactivation request is always preceded by its confirmation prompt.\<close>

lemma confirmed_first_append:
  "confirmed_first earlier (xs @ ys) \<longleftrightarrow> confirmed_first earlier xs \<and> confirmed_first (earlier @ xs) ys"
  by (induction earlier xs rule: confirmed_first.induct) simp_all

lemma confirmed_first_by_earlier:
  "(\<And>u er. Http (DeactivateReq u er) \<in> set xs \<Longrightarrow> list_ex (is_prompt u) earlier)
     \<Longrightarrow> confirmed_first earlier xs"
proof (induction earlier xs rule: confirmed_first.induct)
  case (1 earlier)
  then show ?case by simp
next
  case (2 earlier userId erase rest)
  have "list_ex (is_prompt u) (earlier @ [Http (DeactivateReq userId erase)])"
    if "Http (DeactivateReq u er) \<in> set rest" for u er
    using "2.prems"[of u er] that by simp
  then show ?case
    using "2.IH" "2.prems"[of userId erase] by simp
qed (simp_all add: list_ex_iff)

lemma offered_append: "offered (xs @ ys) = offered xs @ offered ys"
  by (simp add: offered_def)

lemma prompt_tokens:
  assumes "harmless e" and "''confirm_deactivate_'' @ u \<in> callback_data ` set (concat (keyboard_of e))"
  shows "is_prompt u e"
proof -
  obtain b where mem: "b \<in> set (concat (keyboard_of e))"
    and b: "''confirm_deactivate_'' @ u = callback_data b"
    using assms(2) by blast
  have "startsWith (callback_data b) ''confirm_deactivate_''"
    unfolding b[symmetric] by (simp add: startsWith_def)
  with mem have "\<not> confirm_free (keyboard_of e)"
    unfolding confirm_free_def list_all_iff by blast
  then obtain v where v: "is_prompt v e"
    using assms(1) by (auto simp add: harmless_def)
  then have "keyboard_of e = confirm_keyboard v"
    by (cases e) auto
  then have "u = v"
    using assms(2) by (auto simp add: confirm_keyboard_def)
  then show ?thesis
    using v by simp
qed

lemma prompts_cover_step:
  assumes "list_all harmless effs"
    and "\<And>u. ''confirm_deactivate_'' @ u \<in> set (offered seen) \<Longrightarrow> list_ex (is_prompt u) seen"
    and "''confirm_deactivate_'' @ u \<in> set (offered (seen @ effs))"
  shows "list_ex (is_prompt u) (seen @ effs)"
proof (cases "''confirm_deactivate_'' @ u \<in> set (offered seen)")
  case True
  then show ?thesis
    using assms(2) by simp
next
  case False
  then obtain e where "e \<in> set effs"
    and "''confirm_deactivate_'' @ u \<in> callback_data ` set (concat (keyboard_of e))"
    using assms(3) by (auto simp add: offered_append offered_def)
  then show ?thesis
    using assms(1) prompt_tokens[of e u] by (auto simp add: list_all_iff list_ex_iff)
qed

lemma run_confirmed_first:
  assumes S1: "\<And>srv states ev u er.
                 Http (DeactivateReq u er) \<in> set (snd (step srv states ev))
                 \<Longrightarrow> \<exists>q. ev = CallbackQuery q \<and> cq_data q = ''confirm_deactivate_'' @ u"
    and S2: "\<And>srv states ev. list_all harmless (snd (step srv states ev))"
  shows "pressable step states seen evs
         \<Longrightarrow> (\<And>u. ''confirm_deactivate_'' @ u \<in> set (offered seen) \<Longrightarrow> list_ex (is_prompt u) seen)
         \<Longrightarrow> confirmed_first seen (snd (run step states evs))"
proof (induction evs arbitrary: states seen)
  case Nil
  then show ?case by simp
next
  case (Cons a evs)
  obtain srv ev where a: "a = (srv, ev)"
    by (cases a)
  obtain states' effs where st: "step srv states ev = (states', effs)"
    by (cases "step srv states ev")
  obtain states'' effs' where rn: "run step states' evs = (states'', effs')"
    by (cases "run step states' evs")
  have pr: "pressable step states' (seen @ effs) evs"
    using Cons.prems(1) a st by simp
  have first: "confirmed_first seen effs"
  proof (rule confirmed_first_by_earlier)
    fix u er
    assume "Http (DeactivateReq u er) \<in> set effs"
    then obtain q where "ev = CallbackQuery q" and "cq_data q = ''confirm_deactivate_'' @ u"
      using S1[of u er srv states ev] st by auto
    then have "''confirm_deactivate_'' @ u \<in> set (offered seen)"
      using Cons.prems(1) a by simp
    then show "list_ex (is_prompt u) seen"
      by (rule Cons.prems(2))
  qed
  have cover: "list_ex (is_prompt u) (seen @ effs)"
    if "''confirm_deactivate_'' @ u \<in> set (offered (seen @ effs))" for u
    using prompts_cover_step[of effs seen u] S2[of srv states ev] st Cons.prems(2) that by simp
  have "confirmed_first (seen @ effs) (snd (run step states' evs))"
    using Cons.IH[OF pr cover] by simp
  then show ?case
    using first a st rn by (simp add: confirmed_first_append)
qed

text \<open>What an authorized button press does.\<close>

lemma secure_step_authorized:
  assumes "isAuthorized cfg (cq_from q)"
  shows "secure_step cfg srv states (CallbackQuery q)
         = (fst (secure_branches srv states q),
            Console (Log_authorized (cq_from q) (''callback: '' @ cq_data q))
            # AnswerCallbackQuery None
            # fst (snd (secure_branches srv states q))
            @ catch_all q (snd (snd (secure_branches srv states q)))
            @ (if snd (snd (secure_branches srv states q)) = Returned then []
               else [AnswerCallbackQuery None]))"
  using assms
  by (cases "secure_branches srv states q")
    (simp add: secure_step_def requireAuthCallback_def secure_callback_handler_def Let_def)

lemma complete_step_authorized:
  assumes "isAuthorized cfg (cq_from q)"
  shows "complete_step cfg srv states (CallbackQuery q)
         = (fst (complete_branches srv states q),
            Console (Log_authorized (cq_from q) (''callback: '' @ cq_data q))
            # AnswerCallbackQuery None
            # fst (snd (complete_branches srv states q))
            @ catch_all q (snd (snd (complete_branches srv states q))))"
  using assms
  by (cases "complete_branches srv states q")
    (simp add: complete_step_def requireAuthCallback_def complete_callback_handler_def Let_def)

lemma deactivate_menu_dispatch:
  "cq_data q = ''deactivate_menu''
   \<Longrightarrow> secure_branches srv states q = secure_deactivate_menu_branch srv states q"
  "cq_data q = ''deactivate_menu''
   \<Longrightarrow> complete_branches srv states q = complete_deactivate_menu_branch srv states q"
  by (simp_all add: secure_branches_def complete_branches_def startsWith_def)

lemma secure_deactivate_menu_success:
  assumes "list_users srv 0 100 = Inr usersData"
  shows "secure_deactivate_menu_branch srv states q =
           (if activeUsers usersData = []
            then (states,
                  [EditMessageText (cq_chat_id q) (cq_message_id q) Msg_loading_for_deactivation None,
                   Http (GetUsersReq 0 100),
                   EditMessageText (cq_chat_id q) (cq_message_id q) Msg_no_active_users
                     (Some back_keyboard)],
                  Returned)
            else (states(cq_chat_id q \<mapsto>
                    empty_session\<lparr>st_users := Some (activeUsers usersData), st_page := Some (Num 0)\<rparr>),
                  [EditMessageText (cq_chat_id q) (cq_message_id q) Msg_loading_for_deactivation None,
                   Http (GetUsersReq 0 100),
                   EditMessageText (cq_chat_id q) (cq_message_id q) Msg_select_user
                     (Some (secure_createUserSelectionKeyboard (activeUsers usersData)
                              (Some (Num 0)) None))],
                  Completed))"
  using assms
  by (simp add: secure_deactivate_menu_branch_def getUsers_def default_arg_def Let_def)

lemma complete_deactivate_menu_success:
  assumes "list_users srv 0 100 = Inr usersData"
  shows "complete_deactivate_menu_branch srv states q =
           (if deactivatableUsers usersData = []
            then (states,
                  [EditMessageText (cq_chat_id q) (cq_message_id q) Msg_loading_for_deactivation None,
                   Http (GetUsersReq 0 100),
                   EditMessageText (cq_chat_id q) (cq_message_id q)
                     (Msg_no_deactivatable_users
                        (length (filter (\<lambda>user. \<not> deactivated user \<and> admin user) (or_list usersData))))
                     (Some back_keyboard)],
                  Returned)
            else (states(cq_chat_id q \<mapsto>
                    empty_session\<lparr>st_users := Some (deactivatableUsers usersData),
                                  st_page := Some (Num 0)\<rparr>),
                  [EditMessageText (cq_chat_id q) (cq_message_id q) Msg_loading_for_deactivation None,
                   Http (GetUsersReq 0 100),
                   EditMessageText (cq_chat_id q) (cq_message_id q) Msg_select_user_admins_hidden
                     (Some (complete_createUserSelectionKeyboard (deactivatableUsers usersData)
                              (Some (Num 0)) None None))],
                  Completed))"
  using assms
  by (simp add: complete_deactivate_menu_branch_def getUsers_def default_arg_def Let_def)

lemma take_100_served:
  "list_users (directory_server accounts) 0 100 = Inr (Some (take 100 accounts))"
  by (simp add: directory_server_def)

section \<open>Properties of the authorization gate\<close>

lemma isAuthorized_iff:
  "isAuthorized cfg user \<longleftrightarrow>
     \<not> (AUTHORIZED_USERS cfg = [] \<and> AUTHORIZED_USERNAMES cfg = [])
     \<and> (Num (tg_id user) \<in> set (AUTHORIZED_USERS cfg)
        \<or> (\<exists>h. username user = Some h \<and> h \<noteq> []
                \<and> toLowerCase h \<in> set (AUTHORIZED_USERNAMES cfg)))"
  by (auto simp add: isAuthorized_def truthy_str_def split: option.splits)

text \<open>
  C1, as the code has it. With both lists empty, \<open>isAuthorized\<close> of \<open>bot-secure.js\<close>
  (and of the complete variants) rejects every actor, with or without a handle, while
  the \<open>isAuthorized\<close> of the variant that follows the README text accepts every actor.
\<close>

theorem C1_empty_allow_list:
  assumes "AUTHORIZED_USERS cfg = []" and "AUTHORIZED_USERNAMES cfg = []"
  shows "\<not> isAuthorized cfg user \<and> isAuthorized_legacy cfg user"
  using assms by (simp add: isAuthorized_def isAuthorized_legacy_def)

theorem C1_empty_allow_list_witness:
  "\<not> isAuthorized \<lparr>AUTHORIZED_USERS = [], AUTHORIZED_USERNAMES = []\<rparr>
        \<lparr>tg_id = 42, username = None\<rparr>
   \<and> isAuthorized_legacy \<lparr>AUTHORIZED_USERS = [], AUTHORIZED_USERNAMES = []\<rparr>
        \<lparr>tg_id = 42, username = None\<rparr>"
  using C1_empty_allow_list
    [of "\<lparr>AUTHORIZED_USERS = [], AUTHORIZED_USERNAMES = []\<rparr>" "\<lparr>tg_id = 42, username = None\<rparr>"]
  by simp

text \<open>
  C1, as the claim states it, fails on the variant that follows the README text: there an
  empty allow-list authorizes an actor without a handle.
\<close>

theorem C1_legacy_fail_open:
  "isAuthorized_legacy \<lparr>AUTHORIZED_USERS = [], AUTHORIZED_USERNAMES = []\<rparr>
     \<lparr>tg_id = 7, username = None\<rparr> = True"
  by (simp add: isAuthorized_legacy_def)

text \<open>
  C4. With a non-empty allow-list, an actor is authorized exactly when the id is listed
  or the actor has a (non-empty) handle whose lower-cased form is listed. Hence a listed
  id authorizes whatever the handle is, and since the configuration stores each handle
  trimmed and lower-cased, a configured handle matches the actor's handle in any casing.
  The gate of every variant decides a non-empty allow-list in the same way.
\<close>

theorem C4_authorized_iff:
  assumes "\<not> (AUTHORIZED_USERS cfg = [] \<and> AUTHORIZED_USERNAMES cfg = [])"
  shows "(isAuthorized cfg user \<longleftrightarrow>
            Num (tg_id user) \<in> set (AUTHORIZED_USERS cfg)
            \<or> (\<exists>h. username user = Some h \<and> h \<noteq> []
                   \<and> toLowerCase h \<in> set (AUTHORIZED_USERNAMES cfg)))
       \<and> (isAuthorized_legacy cfg user \<longleftrightarrow> isAuthorized cfg user)
       \<and> (Num (tg_id user) \<in> set (AUTHORIZED_USERS cfg) \<longrightarrow> isAuthorized cfg user)
       \<and> (\<forall>env entry h.
            AUTHORIZED_USERNAMES cfg = parse_AUTHORIZED_USERNAMES (Some env)
            \<and> entry \<in> set (split_js env CHR '','')
            \<and> username user = Some h \<and> h \<noteq> []
            \<and> toLowerCase h = toLowerCase (trim entry)
            \<longrightarrow> isAuthorized cfg user)"
proof -
  have main: "isAuthorized cfg user \<longleftrightarrow>
            Num (tg_id user) \<in> set (AUTHORIZED_USERS cfg)
            \<or> (\<exists>h. username user = Some h \<and> h \<noteq> []
                   \<and> toLowerCase h \<in> set (AUTHORIZED_USERNAMES cfg))"
    using assms by (simp add: isAuthorized_iff)
  have legacy: "isAuthorized_legacy cfg user \<longleftrightarrow> isAuthorized cfg user"
    using assms by (auto simp add: isAuthorized_def isAuthorized_legacy_def)
  have handles: "isAuthorized cfg user"
    if "AUTHORIZED_USERNAMES cfg = parse_AUTHORIZED_USERNAMES (Some env)"
      and "entry \<in> set (split_js env CHR '','')"
      and "username user = Some h" and "h \<noteq> []"
      and "toLowerCase h = toLowerCase (trim entry)"
    for env entry h
  proof -
    have "env \<noteq> []"
      using that(2,4,5) by (cases env) (auto simp add: trim_def toLowerCase_def)
    then have "toLowerCase (trim entry) \<in> set (AUTHORIZED_USERNAMES cfg)"
      using that(1,2) by (simp add: parse_AUTHORIZED_USERNAMES_def truthy_str_def)
    then show ?thesis
      using that(3,4,5) main by auto
  qed
  show ?thesis
    using main legacy handles by blast
qed

theorem C4_authorized_iff_witness:
  "isAuthorized (load_config (Some ''42'') (Some ''Alice'')) \<lparr>tg_id = 7, username = Some ''ALICE''\<rparr>
   \<and> isAuthorized (load_config (Some ''42'') (Some ''Alice'')) \<lparr>tg_id = 42, username = None\<rparr>
   \<and> \<not> isAuthorized (load_config (Some ''42'') (Some ''Alice'')) \<lparr>tg_id = 7, username = Some ''bob''\<rparr>"
proof -
  have cfg: "load_config (Some ''42'') (Some ''Alice'')
             = \<lparr>AUTHORIZED_USERS = [Num 42], AUTHORIZED_USERNAMES = [''alice'']\<rparr>"
    by code_simp
  have low: "toLowerCase ''ALICE'' = ''alice''" "toLowerCase ''bob'' = ''bob''"
    by code_simp+
  show ?thesis
    using C4_authorized_iff
            [of "load_config (Some ''42'') (Some ''Alice'')" "\<lparr>tg_id = 7, username = Some ''ALICE''\<rparr>"]
          C4_authorized_iff
            [of "load_config (Some ''42'') (Some ''Alice'')" "\<lparr>tg_id = 42, username = None\<rparr>"]
          C4_authorized_iff
            [of "load_config (Some ''42'') (Some ''Alice'')" "\<lparr>tg_id = 7, username = Some ''bob''\<rparr>"]
    by (simp add: cfg low)
qed

section \<open>Properties of the directory client\<close>

text \<open>
  C5. \<open>searchUsers\<close> keeps a fetched account exactly when its id contains the term, both
  lower-cased, or its display name is present and contains the term, both lower-cased, or
  its id equals the term. The filtered accounts are counted in \<open>total\<close>, and with the
  default arguments the first 100 of them are returned.
\<close>

theorem C5_search_match:
  "(user \<in> set (filteredUsers searchTerm allUsers) \<longleftrightarrow>
      user \<in> set allUsers
      \<and> (sublist (toLowerCase searchTerm) (toLowerCase (name user))
         \<or> (\<exists>d. displayname user = Some d \<and> sublist (toLowerCase searchTerm) (toLowerCase d))
         \<or> name user = searchTerm))
   \<and> (list_users srv 0 1000 = Inr usersData \<longrightarrow>
        snd (searchUsers srv searchTerm None None)
          = Inr \<lparr>sr_users = take 100 (filteredUsers searchTerm (or_list usersData)),
                 sr_total = length (filteredUsers searchTerm (or_list usersData)),
                 sr_from = 0, sr_limit = 100\<rparr>)"
proof -
  have m: "search_match searchTerm user \<longleftrightarrow>
        sublist (toLowerCase searchTerm) (toLowerCase (name user))
         \<or> (\<exists>d. displayname user = Some d \<and> sublist (toLowerCase searchTerm) (toLowerCase d))
         \<or> name user = searchTerm"
    by (cases "displayname user")
      (auto simp add: search_match_def Let_def truthy_str_def includes_str_sublist toLowerCase_def)
  have s: "slice_js xs (Num 0) (num_min (num_add (Num 0) (Num 100)) (Num (int (length xs)))) = take 100 xs"
    for xs :: "matrix_user list"
    using slice_js_nat[of "min 100 (length xs)" xs 0] page_bounds[of 0 100 "length xs"]
    by (cases "100 \<le> length xs") (simp_all add: min_def)
  show ?thesis
    using m s by (auto simp add: filteredUsers_def searchUsers_def Let_def default_arg_def)
qed

theorem C5_search_match_witness:
  "snd (searchUsers (directory_server scenario_B_accounts) ''john'' None None)
     = Inr \<lparr>sr_users = scenario_B_accounts, sr_total = 2, sr_from = 0, sr_limit = 100\<rparr>
   \<and> filteredUsers ''@john:x'' scenario_B_accounts = [account ''@john:x'' (Some ''J. Public'') False False]"
proof -
  have l: "list_users (directory_server scenario_B_accounts) 0 1000 = Inr (Some scenario_B_accounts)"
    by (simp add: directory_server_def scenario_B_accounts_def)
  have f: "filteredUsers ''john'' scenario_B_accounts = scenario_B_accounts"
    by code_simp
  have g: "filteredUsers ''@john:x'' scenario_B_accounts
           = [account ''@john:x'' (Some ''J. Public'') False False]"
    by code_simp
  have n: "length scenario_B_accounts = 2"
    by (simp add: scenario_B_accounts_def)
  show ?thesis
    using C5_search_match[of _ "''john''" _ "directory_server scenario_B_accounts"
        "Some scenario_B_accounts"] l g
    by (simp add: or_list_def f n)
qed

text \<open>
  C9. The request that \<open>deactivateUser\<close> sends carries \<open>erase: false\<close>, and no event makes
  either variant of the bot send a deactivation request with another value.
\<close>

theorem C9_erase_false:
  "http_requests (fst (deactivateUser srv userId)) = [DeactivateReq userId False]
   \<and> (Http (DeactivateReq u er) \<in> set (snd (secure_step cfg srv states ev)) \<longrightarrow> er = False)
   \<and> (Http (DeactivateReq u er) \<in> set (snd (complete_step cfg srv states ev)) \<longrightarrow> er = False)"
  using secure_step_deactivation[of u er cfg srv states ev]
    complete_step_deactivation[of u er cfg srv states ev]
  by (auto simp add: deactivateUser_requests)

theorem C9_erase_false_witness:
  "Http (DeactivateReq ''@bob:x'' False)
     \<in> set (snd (secure_step only_operator (directory_server []) Map.empty
                  (press ''confirm_deactivate_@bob:x'')))
   \<and> Http (DeactivateReq ''@bob:x'' True)
     \<notin> set (snd (secure_step only_operator (directory_server []) Map.empty
                  (press ''confirm_deactivate_@bob:x'')))
   \<and> Http (DeactivateReq ''@bob:x'' False)
     \<in> set (snd (complete_step only_operator (directory_server []) Map.empty
                  (press ''confirm_deactivate_@bob:x'')))"
proof -
  have a: "Http (DeactivateReq ''@bob:x'' False)
     \<in> set (snd (secure_step only_operator (directory_server []) Map.empty
                  (press ''confirm_deactivate_@bob:x'')))"
    by code_simp
  have b: "Http (DeactivateReq ''@bob:x'' False)
     \<in> set (snd (complete_step only_operator (directory_server []) Map.empty
                  (press ''confirm_deactivate_@bob:x'')))"
    by code_simp
  show ?thesis
    using a b C9_erase_false[of "directory_server []" "''@bob:x''" "''@bob:x''" True only_operator
        Map.empty "press ''confirm_deactivate_@bob:x''"]
    by blast
qed

text \<open>
  C10. "Get All Users" and the deactivation menu (in both variants) send one listing
  request each, with \<open>from = 0\<close> and \<open>limit = 100\<close>; \<open>searchUsers\<close> sends one listing request
  with \<open>from = 0\<close> and \<open>limit = 1000\<close>. When the remote directory answers the first request
  with the first 100 of its accounts, the list shown and the deactivation candidates are
  computed from these accounts alone.
\<close>

theorem C10_fetch_limits:
  "http_requests (fst (snd (get_users_branch srv states q))) = [GetUsersReq 0 100]
   \<and> http_requests (fst (snd (secure_deactivate_menu_branch srv states q))) = [GetUsersReq 0 100]
   \<and> http_requests (fst (snd (complete_deactivate_menu_branch srv states q))) = [GetUsersReq 0 100]
   \<and> http_requests (fst (searchUsers srv searchTerm from_arg limit_arg)) = [GetUsersReq 0 1000]
   \<and> (list_users srv 0 100 = Inr (Some (take 100 directory)) \<longrightarrow>
        last (fst (snd (get_users_branch srv states q)))
          = EditMessageText (cq_chat_id q) (cq_message_id q)
              (if take 100 directory = [] then Msg_no_users else Msg_users_list (take 100 directory))
              (Some back_keyboard)
        \<and> fst (secure_deactivate_menu_branch srv states q)
          = (if activeUsers (Some (take 100 directory)) = [] then states
             else states(cq_chat_id q \<mapsto>
                    empty_session\<lparr>st_users := Some (activeUsers (Some (take 100 directory))),
                                  st_page := Some (Num 0)\<rparr>))
        \<and> fst (complete_deactivate_menu_branch srv states q)
          = (if deactivatableUsers (Some (take 100 directory)) = [] then states
             else states(cq_chat_id q \<mapsto>
                    empty_session\<lparr>st_users := Some (deactivatableUsers (Some (take 100 directory))),
                                  st_page := Some (Num 0)\<rparr>)))"
proof -
  have shown: "last (fst (snd (get_users_branch srv states q)))
          = EditMessageText (cq_chat_id q) (cq_message_id q)
              (if take 100 directory = [] then Msg_no_users else Msg_users_list (take 100 directory))
              (Some back_keyboard)"
    if "list_users srv 0 100 = Inr (Some (take 100 directory))"
    using that
    by (simp add: get_users_branch_def getUsers_def default_arg_def or_list_def Let_def)
  show ?thesis
    using shown secure_deactivate_menu_success[of srv "Some (take 100 directory)" states q]
      complete_deactivate_menu_success[of srv "Some (take 100 directory)" states q]
    by (simp add: get_users_branch_requests secure_deactivate_menu_branch_requests
        complete_deactivate_menu_branch_requests searchUsers_requests)
qed

theorem C10_fetch_limits_witness:
  "length (numbered_accounts 101) = 101
   \<and> fst (secure_deactivate_menu_branch (directory_server (numbered_accounts 101)) Map.empty
            (query_on 5 ''deactivate_menu''))
     = [1 \<mapsto> empty_session\<lparr>st_users := Some (take 100 (numbered_accounts 101)),
                             st_page := Some (Num 0)\<rparr>]
   \<and> account ''@user100:x'' None False False \<in> set (numbered_accounts 101)
   \<and> account ''@user100:x'' None False False \<notin> set (take 100 (numbered_accounts 101))"
proof -
  have a: "activeUsers (Some (take 100 (numbered_accounts 101))) = take 100 (numbered_accounts 101)"
    by (simp add: activeUsers_def or_list_def numbered_accounts_def account_def take_map)
  have n: "take 100 (numbered_accounts 101) \<noteq> []"
    by (simp add: numbered_accounts_def take_map)
  have i: "account ''@user100:x'' None False False \<in> set (numbered_accounts 101)"
    by code_simp
  have o: "account ''@user100:x'' None False False \<notin> set (take 100 (numbered_accounts 101))"
    by code_simp
  have l: "length (numbered_accounts 101) = 101"
    by (simp add: numbered_accounts_def)
  have "fst (secure_deactivate_menu_branch (directory_server (numbered_accounts 101)) Map.empty
               (query_on 5 ''deactivate_menu''))
        = (if activeUsers (Some (take 100 (numbered_accounts 101))) = [] then Map.empty
           else Map.empty(cq_chat_id (query_on 5 ''deactivate_menu'') \<mapsto>
                  empty_session\<lparr>st_users := Some (activeUsers (Some (take 100 (numbered_accounts 101)))),
                                st_page := Some (Num 0)\<rparr>))"
    using C10_fetch_limits[of "directory_server (numbered_accounts 101)" Map.empty
        "query_on 5 ''deactivate_menu''" "[]" None None "numbered_accounts 101"]
      take_100_served[of "numbered_accounts 101"]
    by blast
  then show ?thesis
    using n i o l by (simp add: a query_on_def)
qed

section \<open>Properties of pagination and filtering\<close>

text \<open>
  C6. For a list of items, a page number and a page size (natural numbers), the keyboards
  show the page that \<open>paginate\<close> computes: the items from \<open>page * pageSize\<close> up to
  \<open>min (page * pageSize + pageSize) (length items)\<close>, at most \<open>pageSize\<close> of them, a
  "Previous" button exactly when \<open>page > 0\<close> and a "Next" button exactly when the end
  index is below the number of items. With 25 items and page size 10, page 0 holds the
  first 10 items and has "Next" only, page 2 holds the last 5 and has "Previous" only.
\<close>

theorem C6_pagination:
  "secure_createUserSelectionKeyboard us (Some (Num (int pageNo))) (Some (Num (int pageSize)))
     = page_layout (\<lambda>user. [secure_user_button user]) ''users_page_'' pageNo
         (paginate us pageNo pageSize)
       @ [[back_button]]
   \<and> createSearchResultKeyboard us searchTerm (Some (Num (int pageNo))) (Some (Num (int pageSize)))
     = page_layout search_result_row ''search_page_'' pageNo (paginate us pageNo pageSize)
       @ [[\<lparr>btn_text = ''New Search'', callback_data = ''search_users''\<rparr>, back_button]]
   \<and> complete_createUserSelectionKeyboard us (Some (Num (int pageNo))) (Some (Num (int pageSize))) None
     = page_layout (\<lambda>user. [complete_user_button ''deactivate'' user]) ''deactivate_page_'' pageNo
         (paginate us pageNo pageSize)
       @ [[back_button]]
   \<and> paginate us pageNo pageSize
     = (take (min (pageNo * pageSize + pageSize) (length us) - pageNo * pageSize)
          (drop (pageNo * pageSize) us),
        pageNo > 0,
        min (pageNo * pageSize + pageSize) (length us) < length us)
   \<and> length (fst (paginate us pageNo pageSize)) \<le> pageSize
   \<and> (length us = 25 \<longrightarrow>
        paginate us 0 10 = (take 10 us, False, True) \<and> paginate us 2 10 = (drop 20 us, True, False))"
proof -
  have 1: "secure_createUserSelectionKeyboard us (Some (Num (int pageNo))) (Some (Num (int pageSize)))
     = page_layout (\<lambda>user. [secure_user_button user]) ''users_page_'' pageNo
         (paginate us pageNo pageSize)
       @ [[back_button]]"
    unfolding secure_createUserSelectionKeyboard_def default_arg_def option.case Let_def
      page_slice page_nav page_layout_eq
    by simp
  have 2: "createSearchResultKeyboard us searchTerm (Some (Num (int pageNo))) (Some (Num (int pageSize)))
     = page_layout search_result_row ''search_page_'' pageNo (paginate us pageNo pageSize)
       @ [[\<lparr>btn_text = ''New Search'', callback_data = ''search_users''\<rparr>, back_button]]"
    unfolding createSearchResultKeyboard_def default_arg_def option.case Let_def
      page_slice page_nav page_layout_eq
    by simp
  have 3: "complete_createUserSelectionKeyboard us (Some (Num (int pageNo))) (Some (Num (int pageSize))) None
     = page_layout (\<lambda>user. [complete_user_button ''deactivate'' user]) ''deactivate_page_'' pageNo
         (paginate us pageNo pageSize)
       @ [[back_button]]"
    unfolding complete_createUserSelectionKeyboard_def default_arg_def option.case Let_def
      page_slice page_nav page_layout_eq
    by simp
  have 4: "paginate us pageNo pageSize
     = (take (min (pageNo * pageSize + pageSize) (length us) - pageNo * pageSize)
          (drop (pageNo * pageSize) us),
        pageNo > 0,
        min (pageNo * pageSize + pageSize) (length us) < length us)"
    by (simp add: paginate_def Let_def)
  have 5: "length (fst (paginate us pageNo pageSize)) \<le> pageSize"
    by (simp add: paginate_def Let_def)
  have 6: "paginate us 0 10 = (take 10 us, False, True) \<and> paginate us 2 10 = (drop 20 us, True, False)"
    if "length us = 25"
    using that by (simp add: paginate_def Let_def)
  show ?thesis
    using 1 2 3 4 5 6 by blast
qed

theorem C6_pagination_witness:
  "length (numbered_accounts 25) = 25
   \<and> secure_createUserSelectionKeyboard (numbered_accounts 25) (Some (Num 0)) None
     = map (\<lambda>user. [secure_user_button user]) (take 10 (numbered_accounts 25))
       @ [[\<lparr>btn_text = ''Next'', callback_data = ''users_page_1''\<rparr>], [back_button]]
   \<and> secure_createUserSelectionKeyboard (numbered_accounts 25) (Some (Num 2)) None
     = map (\<lambda>user. [secure_user_button user]) (drop 20 (numbered_accounts 25))
       @ [[\<lparr>btn_text = ''Previous'', callback_data = ''users_page_1''\<rparr>], [back_button]]
   \<and> length (drop 20 (numbered_accounts 25)) = 5"
proof -
  have len: "length (numbered_accounts 25) = 25"
    by (simp add: numbered_accounts_def)
  have d: "secure_createUserSelectionKeyboard us p None
           = secure_createUserSelectionKeyboard us p (Some (Num (int 10)))" for us p
    by (simp add: secure_createUserSelectionKeyboard_def default_arg_def)
  have n: "num_to_string (Num 1) = ''1''"
    by code_simp
  have z: "Num 0 = Num (int 0)" "Num 2 = Num (int 2)"
    by simp_all
  show ?thesis
    using C6_pagination[of "numbered_accounts 25" 0 10 None]
      C6_pagination[of "numbered_accounts 25" 2 10 None] len
    unfolding d z
    by (simp add: page_layout_def n)
qed

text \<open>
  C2, as the code has it. The candidate filter of the complete variant keeps exactly the
  accounts that are neither deactivated nor administrators; the filter of \<open>bot-secure.js\<close>
  keeps exactly the accounts that are not deactivated, administrators included. Each
  deactivation menu stores and shows the accounts that its filter keeps.
\<close>

theorem C2_candidate_filters:
  "set (deactivatableUsers usersData)
     = {a \<in> set (or_list usersData). \<not> deactivated a \<and> \<not> admin a}
   \<and> set (activeUsers usersData) = {a \<in> set (or_list usersData). \<not> deactivated a}
   \<and> (list_users srv 0 100 = Inr usersData \<and> deactivatableUsers usersData \<noteq> [] \<longrightarrow>
        complete_deactivate_menu_branch srv states q
          = (states(cq_chat_id q \<mapsto>
               empty_session\<lparr>st_users := Some (deactivatableUsers usersData),
                             st_page := Some (Num 0)\<rparr>),
             [EditMessageText (cq_chat_id q) (cq_message_id q) Msg_loading_for_deactivation None,
              Http (GetUsersReq 0 100),
              EditMessageText (cq_chat_id q) (cq_message_id q) Msg_select_user_admins_hidden
                (Some (complete_createUserSelectionKeyboard (deactivatableUsers usersData)
                         (Some (Num 0)) None None))],
             Completed))
   \<and> (list_users srv 0 100 = Inr usersData \<and> activeUsers usersData \<noteq> [] \<longrightarrow>
        secure_deactivate_menu_branch srv states q
          = (states(cq_chat_id q \<mapsto>
               empty_session\<lparr>st_users := Some (activeUsers usersData), st_page := Some (Num 0)\<rparr>),
             [EditMessageText (cq_chat_id q) (cq_message_id q) Msg_loading_for_deactivation None,
              Http (GetUsersReq 0 100),
              EditMessageText (cq_chat_id q) (cq_message_id q) Msg_select_user
                (Some (secure_createUserSelectionKeyboard (activeUsers usersData)
                         (Some (Num 0)) None))],
             Completed))"
  using secure_deactivate_menu_success[of srv usersData states q]
    complete_deactivate_menu_success[of srv usersData states q]
  by (auto simp add: deactivatableUsers_def activeUsers_def)

theorem C2_candidate_filters_witness:
  "deactivatableUsers (Some mixed_accounts) = [account ''@alice:x'' None False False]
   \<and> activeUsers (Some mixed_accounts)
     = [account ''@alice:x'' None False False, account ''@root:x'' None False True]
   \<and> fst (complete_deactivate_menu_branch (directory_server mixed_accounts) Map.empty
            (query_on 5 ''deactivate_menu''))
     = [1 \<mapsto> empty_session\<lparr>st_users := Some [account ''@alice:x'' None False False],
                             st_page := Some (Num 0)\<rparr>]
   \<and> fst (secure_deactivate_menu_branch (directory_server mixed_accounts) Map.empty
            (query_on 5 ''deactivate_menu''))
     = [1 \<mapsto> empty_session\<lparr>st_users := Some [account ''@alice:x'' None False False,
                                                account ''@root:x'' None False True],
                             st_page := Some (Num 0)\<rparr>]"
proof -
  have l: "list_users (directory_server mixed_accounts) 0 100 = Inr (Some mixed_accounts)"
    by (simp add: directory_server_def mixed_accounts_def)
  have d: "deactivatableUsers (Some mixed_accounts) = [account ''@alice:x'' None False False]"
    by (simp add: deactivatableUsers_def or_list_def mixed_accounts_def account_def)
  have a: "activeUsers (Some mixed_accounts)
           = [account ''@alice:x'' None False False, account ''@root:x'' None False True]"
    by (simp add: activeUsers_def or_list_def mixed_accounts_def account_def)
  show ?thesis
    using C2_candidate_filters[of "Some mixed_accounts" "directory_server mixed_accounts" Map.empty
        "query_on 5 ''deactivate_menu''"] l
    by (simp add: d a query_on_def)
qed

text \<open>
  C2, as the claim states it, fails on \<open>bot-secure.js\<close>: with an administrator as the only
  account of the directory, the deactivation menu offers the administrator.
\<close>

theorem C2_secure_offers_admin:
  "admin (account ''@root:x'' None False True)
   \<and> ''deactivate_@root:x''
       \<in> set (offered (snd (secure_step only_operator
                              (directory_server [account ''@root:x'' None False True])
                              Map.empty (press ''deactivate_menu''))))"
  by code_simp

section \<open>Properties of the interaction controller\<close>

lemma is_deactivation_iff: "is_deactivation e \<longleftrightarrow> (\<exists>u er. e = Http (DeactivateReq u er))"
  by (cases e rule: is_deactivation.cases) simp_all

text \<open>
  C3. In every execution in which each button event presses a button that the bot has
  shown, every deactivation request comes after a confirmation prompt for the same
  account. A step sends a deactivation request only when it handles the "confirm" button
  of that account, pressed by an authorized operator; handling a "select" button
  (\<open>deactivate_\<close> followed by an id) never sends one, and for a Matrix id (which begins
  with \<open>@\<close>) it shows the confirmation prompt. This holds for \<open>bot-secure.js\<close> and for the
  complete variant.
\<close>

theorem C3_confirmation_first:
  "(pressable (secure_step cfg) states [] evs
      \<longrightarrow> confirmed_first [] (snd (run (secure_step cfg) states evs)))
   \<and> (pressable (complete_step cfg) states [] evs
      \<longrightarrow> confirmed_first [] (snd (run (complete_step cfg) states evs)))
   \<and> (Http (DeactivateReq userId erase) \<in> set (snd (secure_step cfg srv states ev))
      \<longrightarrow> (\<exists>c. ev = CallbackQuery c \<and> isAuthorized cfg (cq_from c)
               \<and> cq_data c = ''confirm_deactivate_'' @ userId))
   \<and> (Http (DeactivateReq userId erase) \<in> set (snd (complete_step cfg srv states ev))
      \<longrightarrow> (\<exists>c. ev = CallbackQuery c \<and> isAuthorized cfg (cq_from c)
               \<and> cq_data c = ''confirm_deactivate_'' @ userId))
   \<and> \<not> list_ex is_deactivation
         (snd (secure_step cfg srv states (CallbackQuery (q\<lparr>cq_data := ''deactivate_'' @ selected\<rparr>))))
   \<and> \<not> list_ex is_deactivation
         (snd (complete_step cfg srv states (CallbackQuery (q\<lparr>cq_data := ''deactivate_'' @ selected\<rparr>))))
   \<and> (isAuthorized cfg (cq_from q) \<and> startsWith selected ''@''
      \<longrightarrow> list_ex (is_prompt selected)
            (snd (secure_step cfg srv states (CallbackQuery (q\<lparr>cq_data := ''deactivate_'' @ selected\<rparr>))))
        \<and> list_ex (is_prompt selected)
            (snd (complete_step cfg srv states (CallbackQuery (q\<lparr>cq_data := ''deactivate_'' @ selected\<rparr>)))))"
proof -
  let ?sel = "CallbackQuery (q\<lparr>cq_data := ''deactivate_'' @ selected\<rparr>)"
  have t1: "confirmed_first [] (snd (run (secure_step cfg) states evs))"
    if "pressable (secure_step cfg) states [] evs"
    using that
    by (rule run_confirmed_first[where step = "secure_step cfg" and seen = "[]", rotated 2])
      (auto simp add: offered_def harmless_steps dest: secure_step_deactivation)
  have t2: "confirmed_first [] (snd (run (complete_step cfg) states evs))"
    if "pressable (complete_step cfg) states [] evs"
    using that
    by (rule run_confirmed_first[where step = "complete_step cfg" and seen = "[]", rotated 2])
      (auto simp add: offered_def harmless_steps dest: complete_step_deactivation)
  have s1: "\<not> list_ex is_deactivation (snd (secure_step cfg srv states ?sel))"
    using secure_step_deactivation[of _ _ cfg srv states ?sel]
    by (auto simp add: list_ex_iff is_deactivation_iff)
  have s2: "\<not> list_ex is_deactivation (snd (complete_step cfg srv states ?sel))"
    using complete_step_deactivation[of _ _ cfg srv states ?sel]
    by (auto simp add: list_ex_iff is_deactivation_iff)
  have p: "list_ex (is_prompt selected) (snd (secure_step cfg srv states ?sel))
           \<and> list_ex (is_prompt selected) (snd (complete_step cfg srv states ?sel))"
    if a: "isAuthorized cfg (cq_from q)" and m: "startsWith selected ''@''"
  proof -
    obtain r where r: "selected = CHR ''@'' # r"
      using m by (cases selected) (auto simp add: startsWith_def)
    have "secure_branches srv states (q\<lparr>cq_data := ''deactivate_'' @ selected\<rparr>)
          = deactivate_branch states (q\<lparr>cq_data := ''deactivate_'' @ selected\<rparr>)"
      by (simp add: secure_branches_def startsWith_def r)
    moreover have "complete_branches srv states (q\<lparr>cq_data := ''deactivate_'' @ selected\<rparr>)
          = deactivate_branch states (q\<lparr>cq_data := ''deactivate_'' @ selected\<rparr>)"
      by (simp add: complete_branches_def startsWith_def r)
    ultimately show ?thesis
      using a
      by (simp add: secure_step_authorized complete_step_authorized deactivate_branch_def
          substring_def Let_def)
  qed
  show ?thesis
    using t1 t2 s1 s2 p secure_step_deactivation[of userId erase cfg srv states ev]
      complete_step_deactivation[of userId erase cfg srv states ev]
    by blast
qed

theorem C3_confirmation_first_witness:
  "pressable (secure_step only_operator) Map.empty [] confirmed_deactivation
   \<and> confirmed_first [] (snd (run (secure_step only_operator) Map.empty confirmed_deactivation))
   \<and> Http (DeactivateReq ''@user1:x'' False)
       \<in> set (snd (run (secure_step only_operator) Map.empty confirmed_deactivation))
   \<and> \<not> pressable (secure_step only_operator) Map.empty []
         [(twelve, say ''/start''), (twelve, press ''confirm_deactivate_@user1:x'')]"
proof -
  have p: "pressable (secure_step only_operator) Map.empty [] confirmed_deactivation"
    by code_simp
  have d: "Http (DeactivateReq ''@user1:x'' False)
       \<in> set (snd (run (secure_step only_operator) Map.empty confirmed_deactivation))"
    by code_simp
  have n: "\<not> pressable (secure_step only_operator) Map.empty []
         [(twelve, say ''/start''), (twelve, press ''confirm_deactivate_@user1:x'')]"
    by code_simp
  show ?thesis
    using C3_confirmation_first[of only_operator Map.empty confirmed_deactivation] p d n
    by blast
qed

lemma run_append:
  "run step states (xs @ ys)
     = (case run step states xs of
          (s1, e1) \<Rightarrow> (case run step s1 ys of (s2, e2) \<Rightarrow> (s2, e1 @ e2)))"
  by (induction xs arbitrary: states) (auto split: prod.splits)

text \<open>
  C7, as the code has it. The "Cancel" button of the confirmation prompt carries the
  callback data of the deactivation menu. Pressing it sends one listing request (from 0,
  limit 100) and no deactivation request. When the request succeeds and candidates
  exist, the stored object is replaced by the fresh candidates with page 0; the object
  holds no pending target. When there is no candidate or the request fails, the stored
  object is left as it was.
\<close>

theorem C7_cancel_reloads_menu:
  "confirm_keyboard userId
     = [[\<lparr>btn_text = ''Yes, Deactivate'', callback_data = ''confirm_deactivate_'' @ userId\<rparr>,
         \<lparr>btn_text = ''Cancel'', callback_data = ''deactivate_menu''\<rparr>]]
   \<and> (isAuthorized cfg (cq_from q) \<and> cq_data q = ''deactivate_menu'' \<longrightarrow>
        http_requests (snd (secure_step cfg srv states (CallbackQuery q))) = [GetUsersReq 0 100]
        \<and> http_requests (snd (complete_step cfg srv states (CallbackQuery q))) = [GetUsersReq 0 100])
   \<and> (isAuthorized cfg (cq_from q) \<and> cq_data q = ''deactivate_menu''
        \<and> list_users srv 0 100 = Inr usersData \<longrightarrow>
        fst (secure_step cfg srv states (CallbackQuery q))
          = (if activeUsers usersData = [] then states
             else states(cq_chat_id q \<mapsto>
                    empty_session\<lparr>st_users := Some (activeUsers usersData), st_page := Some (Num 0)\<rparr>))
        \<and> fst (complete_step cfg srv states (CallbackQuery q))
          = (if deactivatableUsers usersData = [] then states
             else states(cq_chat_id q \<mapsto>
                    empty_session\<lparr>st_users := Some (deactivatableUsers usersData),
                                  st_page := Some (Num 0)\<rparr>)))
   \<and> (isAuthorized cfg (cq_from q) \<and> cq_data q = ''deactivate_menu''
        \<and> list_users srv 0 100 = Inl failure \<longrightarrow>
        fst (secure_step cfg srv states (CallbackQuery q)) = states
        \<and> fst (complete_step cfg srv states (CallbackQuery q)) = states)"
proof -
  have r: "http_requests (snd (secure_step cfg srv states (CallbackQuery q))) = [GetUsersReq 0 100]
        \<and> http_requests (snd (complete_step cfg srv states (CallbackQuery q))) = [GetUsersReq 0 100]"
    if "isAuthorized cfg (cq_from q)" and "cq_data q = ''deactivate_menu''"
    using that
    by (simp add: secure_step_def complete_step_def requireAuthCallback_requests
        secure_callback_handler_requests complete_callback_handler_requests
        deactivate_menu_dispatch branch_requests)
  have s: "fst (secure_step cfg srv states (CallbackQuery q))
          = (if activeUsers usersData = [] then states
             else states(cq_chat_id q \<mapsto>
                    empty_session\<lparr>st_users := Some (activeUsers usersData), st_page := Some (Num 0)\<rparr>))
        \<and> fst (complete_step cfg srv states (CallbackQuery q))
          = (if deactivatableUsers usersData = [] then states
             else states(cq_chat_id q \<mapsto>
                    empty_session\<lparr>st_users := Some (deactivatableUsers usersData),
                                  st_page := Some (Num 0)\<rparr>))"
    if "isAuthorized cfg (cq_from q)" and "cq_data q = ''deactivate_menu''"
      and "list_users srv 0 100 = Inr usersData"
    using that
    by (simp add: secure_step_authorized complete_step_authorized deactivate_menu_dispatch
        secure_deactivate_menu_success complete_deactivate_menu_success)
  have f: "fst (secure_step cfg srv states (CallbackQuery q)) = states
        \<and> fst (complete_step cfg srv states (CallbackQuery q)) = states"
    if "isAuthorized cfg (cq_from q)" and "cq_data q = ''deactivate_menu''"
      and "list_users srv 0 100 = Inl failure"
    using that
    by (simp add: secure_step_authorized complete_step_authorized deactivate_menu_dispatch
        secure_deactivate_menu_branch_def complete_deactivate_menu_branch_def getUsers_def
        default_arg_def Let_def)
  show ?thesis
    using r s f by (simp add: confirm_keyboard_def)
qed

theorem C7_cancel_reloads_menu_witness:
  "map_option st_page
     (fst (run (secure_step only_operator) Map.empty
             (select_on_page_1 @ [(twelve, press ''deactivate_menu'')])) 1)
     = Some (Some (Num 0))
   \<and> map_option st_users
     (fst (run (secure_step only_operator) Map.empty
             (select_on_page_1 @ [(twelve, press ''deactivate_menu'')])) 1)
     = Some (Some (numbered_accounts 12))"
proof -
  have a: "isAuthorized only_operator (cq_from (query_on 5 ''deactivate_menu''))"
    by code_simp
  have l: "list_users twelve 0 100 = Inr (Some (numbered_accounts 12))"
    by (simp add: twelve_def directory_server_def numbered_accounts_def)
  have u: "activeUsers (Some (numbered_accounts 12)) = numbered_accounts 12"
    by (simp add: activeUsers_def or_list_def numbered_accounts_def account_def)
  have n: "numbered_accounts 12 \<noteq> []"
    by (simp add: numbered_accounts_def)
  have r: "fst (run step states (evs @ [(srv, ev)])) = fst (step srv (fst (run step states evs)) ev)"
    for step :: step_fun and states evs srv ev
    by (simp add: run_append split: prod.splits)
  show ?thesis
    using C7_cancel_reloads_menu[of _ only_operator "query_on 5 ''deactivate_menu''" twelve
        "fst (run (secure_step only_operator) Map.empty select_on_page_1)"
        "Some (numbered_accounts 12)"] a l n
    by (simp add: r press_def press_on_def u query_on_def empty_session_def)
qed

text \<open>
  C7, as the claim states it, fails. The operator is on page 1 of the listing when the
  confirmation prompt is shown; pressing "Cancel" then sends a listing request to the
  remote directory and leaves the session on page 0.
\<close>

theorem C7_cancel_fetches_and_resets_page:
  "pressable (secure_step only_operator) Map.empty []
     (select_on_page_1 @ [(twelve, press ''deactivate_menu'')])
   \<and> list_ex (is_prompt ''@user11:x'')
       (snd (run (secure_step only_operator) Map.empty select_on_page_1))
   \<and> map_option st_page (fst (run (secure_step only_operator) Map.empty select_on_page_1) 1)
     = Some (Some (Num 1))
   \<and> map_option st_page
       (fst (secure_step only_operator twelve
               (fst (run (secure_step only_operator) Map.empty select_on_page_1))
               (press ''deactivate_menu'')) 1)
     = Some (Some (Num 0))
   \<and> Http (GetUsersReq 0 100)
       \<in> set (snd (secure_step only_operator twelve
                      (fst (run (secure_step only_operator) Map.empty select_on_page_1))
                      (press ''deactivate_menu'')))"
  by code_simp

text \<open>
  C8, as the code has it. A page button pressed when the chat has no stored object, or
  one without the list the button pages through, changes nothing and shows nothing: the
  callback query is answered without a text, no message is sent or edited, and nothing
  is thrown. "Back to Search" without stored results shows the main menu.
\<close>

theorem C8_stale_page_button:
  "(isAuthorized cfg (cq_from q) \<and> startsWith (cq_data q) ''users_page_''
      \<and> (case states (cq_chat_id q) of None \<Rightarrow> True | Some s \<Rightarrow> st_users s = None) \<longrightarrow>
      secure_step cfg srv states (CallbackQuery q)
        = (states,
           [Console (Log_authorized (cq_from q) (''callback: '' @ cq_data q)),
            AnswerCallbackQuery None, AnswerCallbackQuery None]))
   \<and> (isAuthorized cfg (cq_from q) \<and> startsWith (cq_data q) ''deactivate_page_''
      \<and> (case states (cq_chat_id q) of None \<Rightarrow> True | Some s \<Rightarrow> st_users s = None) \<longrightarrow>
      complete_step cfg srv states (CallbackQuery q)
        = (states,
           [Console (Log_authorized (cq_from q) (''callback: '' @ cq_data q)),
            AnswerCallbackQuery None]))
   \<and> (isAuthorized cfg (cq_from q) \<and> startsWith (cq_data q) ''search_page_''
      \<and> (case states (cq_chat_id q) of None \<Rightarrow> True | Some s \<Rightarrow> st_search_results s = None) \<longrightarrow>
      complete_step cfg srv states (CallbackQuery q)
        = (states,
           [Console (Log_authorized (cq_from q) (''callback: '' @ cq_data q)),
            AnswerCallbackQuery None]))
   \<and> (isAuthorized cfg (cq_from q) \<and> cq_data q = ''back_to_search''
      \<and> (case states (cq_chat_id q) of None \<Rightarrow> True | Some s \<Rightarrow> st_search_results s = None) \<longrightarrow>
      complete_step cfg srv states (CallbackQuery q)
        = (states,
           [Console (Log_authorized (cq_from q) (''callback: '' @ cq_data q)),
            AnswerCallbackQuery None,
            EditMessageText (cq_chat_id q) (cq_message_id q) Msg_choose_action
              (Some createMainKeyboard)]))
   \<and> \<not> notifies (Console (Log_authorized (cq_from q) (''callback: '' @ cq_data q)))
   \<and> \<not> notifies (AnswerCallbackQuery None)"
proof -
  have 1: "secure_step cfg srv states (CallbackQuery q)
        = (states,
           [Console (Log_authorized (cq_from q) (''callback: '' @ cq_data q)),
            AnswerCallbackQuery None, AnswerCallbackQuery None])"
    if a: "isAuthorized cfg (cq_from q)" and p: "startsWith (cq_data q) ''users_page_''"
      and s: "case states (cq_chat_id q) of None \<Rightarrow> True | Some s \<Rightarrow> st_users s = None"
  proof -
    obtain r where r: "cq_data q = ''users_page_'' @ r"
      using startsWith_split[OF p] by blast
    have "secure_branches srv states q = (states, [], Completed)"
      using s
      by (cases "states (cq_chat_id q)")
        (simp_all add: secure_branches_def r startsWith_def secure_users_page_branch_def Let_def)
    then show ?thesis
      using a by (simp add: secure_step_authorized catch_all_def)
  qed
  have 2: "complete_step cfg srv states (CallbackQuery q)
        = (states,
           [Console (Log_authorized (cq_from q) (''callback: '' @ cq_data q)),
            AnswerCallbackQuery None])"
    if a: "isAuthorized cfg (cq_from q)" and p: "startsWith (cq_data q) ''deactivate_page_''"
      and s: "case states (cq_chat_id q) of None \<Rightarrow> True | Some s \<Rightarrow> st_users s = None"
  proof -
    obtain r where r: "cq_data q = ''deactivate_page_'' @ r"
      using startsWith_split[OF p] by blast
    have "complete_branches srv states q = (states, [], Completed)"
      using s
      by (cases "states (cq_chat_id q)")
        (simp_all add: complete_branches_def r startsWith_def deactivate_page_branch_def Let_def)
    then show ?thesis
      using a by (simp add: complete_step_authorized catch_all_def)
  qed
  have 3: "complete_step cfg srv states (CallbackQuery q)
        = (states,
           [Console (Log_authorized (cq_from q) (''callback: '' @ cq_data q)),
            AnswerCallbackQuery None])"
    if a: "isAuthorized cfg (cq_from q)" and p: "startsWith (cq_data q) ''search_page_''"
      and s: "case states (cq_chat_id q) of None \<Rightarrow> True | Some s \<Rightarrow> st_search_results s = None"
  proof -
    obtain r where r: "cq_data q = ''search_page_'' @ r"
      using startsWith_split[OF p] by blast
    have "complete_branches srv states q = (states, [], Completed)"
      using s
      by (cases "states (cq_chat_id q)")
        (simp_all add: complete_branches_def r startsWith_def search_page_branch_def Let_def)
    then show ?thesis
      using a by (simp add: complete_step_authorized catch_all_def)
  qed
  have 4: "complete_step cfg srv states (CallbackQuery q)
        = (states,
           [Console (Log_authorized (cq_from q) (''callback: '' @ cq_data q)),
            AnswerCallbackQuery None,
            EditMessageText (cq_chat_id q) (cq_message_id q) Msg_choose_action
              (Some createMainKeyboard)])"
    if a: "isAuthorized cfg (cq_from q)" and p: "cq_data q = ''back_to_search''"
      and s: "case states (cq_chat_id q) of None \<Rightarrow> True | Some s \<Rightarrow> st_search_results s = None"
  proof -
    have "complete_branches srv states q
          = (states,
             [EditMessageText (cq_chat_id q) (cq_message_id q) Msg_choose_action
                (Some createMainKeyboard)],
             Completed)"
      using s
      by (cases "states (cq_chat_id q)")
        (simp_all add: complete_branches_def p startsWith_def back_to_search_branch_def Let_def)
    then show ?thesis
      using a p by (simp add: complete_step_authorized catch_all_def)
  qed
  show ?thesis
    using 1 2 3 4 by simp
qed

theorem C8_stale_page_button_witness:
  "secure_step only_operator twelve Map.empty (press ''users_page_1'')
     = (Map.empty,
        [Console (Log_authorized operator ''callback: users_page_1''),
         AnswerCallbackQuery None, AnswerCallbackQuery None])"
proof -
  have a: "isAuthorized only_operator (cq_from (query_on 5 ''users_page_1''))"
    by code_simp
  have p: "startsWith (cq_data (query_on 5 ''users_page_1'')) ''users_page_''"
    by code_simp
  show ?thesis
    using C8_stale_page_button[of only_operator "query_on 5 ''users_page_1''" Map.empty twelve] a p
    by (simp add: press_def press_on_def query_on_def)
qed

text \<open>
  C8, as the claim states it, fails. The operator presses "Next" on a listing after the
  stored object of the chat was deleted through another menu: nothing of what the bot
  then does shows a notice.
\<close>

theorem C8_stale_press_shows_nothing:
  "pressable (secure_step only_operator) Map.empty []
     (listing_then_cleared @ [(twelve, press_on 6 ''users_page_1'')])
   \<and> fst (run (secure_step only_operator) Map.empty listing_then_cleared) 1 = None
   \<and> \<not> list_ex notifies
         (snd (secure_step only_operator twelve
                 (fst (run (secure_step only_operator) Map.empty listing_then_cleared))
                 (press_on 6 ''users_page_1'')))"
  by code_simp

end
